theory Spec2Isabelle
  imports Complex_Main "HOL-Library.Multiset"
begin

section \<open>Python values used by the dashboard script\<close>

text \<open>
  A Python \<open>str\<close> is a sequence of Unicode code points, so it is a list of naturals here
  (not bytes): \<open>unicodedata.normalize\<close> and \<open>==\<close> both work on code points.
  \<open>ascii\<close> writes an ASCII literal of the source.
\<close>

type_synonym pystr = "nat list"

definition ascii :: "string \<Rightarrow> pystr" where
  "ascii s = map of_char s"

text \<open>The exceptions the script can meet; \<open>ReadError\<close> is any failure of the pandas readers.\<close>

datatype error =
    FileNotFoundError
  | KeyError
  | IndexError
  | ValueError
  | TypeError
  | ReadError

text \<open>
  A float is an IEEE double: NaN, an infinity, or a finite number, which is written by its
  exact rational value. Python's \<open>>\<close> and \<open>>=\<close> on floats are false whenever an operand
  is NaN. The arithmetic of doubles (rounding, overflow) is not defined here: wherever the
  script averages a column, the function that pandas computes on the column's cells is the
  parameter \<open>fmean\<close>, and the theorems hold for every such function.
\<close>

datatype pyfloat = NaN | NegInf | Num rat | PosInf

fun fgt :: "pyfloat \<Rightarrow> pyfloat \<Rightarrow> bool" where
  "fgt NaN _ = False"
| "fgt _ NaN = False"
| "fgt PosInf PosInf = False"
| "fgt PosInf _ = True"
| "fgt _ PosInf = False"
| "fgt NegInf _ = False"
| "fgt (Num a) NegInf = True"
| "fgt (Num a) (Num b) = (a > b)"

definition fge :: "pyfloat \<Rightarrow> pyfloat \<Rightarrow> bool" where
  "fge a b = (a \<noteq> NaN \<and> b \<noteq> NaN \<and> \<not> fgt b a)"

text \<open>A cell of a table, and also a dictionary key: a float or a string.\<close>

datatype pyval = PyFloat pyfloat | PyStr pystr

subsection \<open>Dictionaries\<close>

text \<open>
  A \<open>dict\<close> keeps insertion order: an association list with distinct keys.
  \<open>d[k] = v\<close> replaces the value of a present key in place and appends a new key.
\<close>

type_synonym ('k, 'v) pydict = "('k \<times> 'v) list"

fun dict_set :: "('k, 'v) pydict \<Rightarrow> 'k \<Rightarrow> 'v \<Rightarrow> ('k, 'v) pydict" where
  "dict_set [] k v = [(k, v)]"
| "dict_set ((k', v') # d) k v =
     (if k' = k then (k, v) # d else (k', v') # dict_set d k v)"

definition dict_get :: "('k, 'v) pydict \<Rightarrow> 'k \<Rightarrow> 'v option" where
  "dict_get d k = map_of d k"

definition dict_index :: "('k, 'v) pydict \<Rightarrow> 'k \<Rightarrow> error + 'v" where
  "dict_index d k = (case map_of d k of None \<Rightarrow> Inl KeyError | Some v \<Rightarrow> Inr v)"

definition dict_keys :: "('k, 'v) pydict \<Rightarrow> 'k list" where
  "dict_keys d = map fst d"

definition dict_values :: "('k, 'v) pydict \<Rightarrow> 'v list" where
  "dict_values d = map snd d"

section \<open>Filename resolver\<close>

text \<open>
  \<open>unicodedata.normalize("NFC", _)\<close> is the standard library's; it is the parameter
  \<open>nfc\<close>. A directory is the list of its entry names in the order \<open>iterdir\<close> yields
  them, or \<open>None\<close> when it does not exist (\<open>iterdir\<close> raises then).
\<close>

definition normalize_name :: "(pystr \<Rightarrow> pystr) \<Rightarrow> pystr \<Rightarrow> pystr" where
  "normalize_name nfc name = nfc name"

fun find_loop :: "(pystr \<Rightarrow> pystr) \<Rightarrow> pystr \<Rightarrow> pystr list \<Rightarrow> pystr option" where
  "find_loop nfc target_nfc [] = None"
| "find_loop nfc target_nfc (file # files) =
     (if normalize_name nfc file = target_nfc then Some file
      else find_loop nfc target_nfc files)"

definition find_file_safe ::
  "(pystr \<Rightarrow> pystr) \<Rightarrow> pystr list option \<Rightarrow> pystr \<Rightarrow> error + pystr option" where
  "find_file_safe nfc directory target_name =
     (let target_nfc = normalize_name nfc target_name
      in case directory of
           None \<Rightarrow> Inl FileNotFoundError
         | Some entries \<Rightarrow> Inr (find_loop nfc target_nfc entries))"

text \<open>
  One concrete normaliser for the examples: the composition of conjoining Hangul jamo
  into syllables, which is what NFC does to the decomposed Korean names of the data files.
  The theorems hold for every \<open>nfc\<close>.
\<close>

definition is_L :: "nat \<Rightarrow> bool" where "is_L c = (0x1100 \<le> c \<and> c \<le> 0x1112)"
definition is_V :: "nat \<Rightarrow> bool" where "is_V c = (0x1161 \<le> c \<and> c \<le> 0x1175)"
definition is_T :: "nat \<Rightarrow> bool" where "is_T c = (0x11A8 \<le> c \<and> c \<le> 0x11C2)"

definition syllable :: "nat \<Rightarrow> nat \<Rightarrow> nat \<Rightarrow> nat" where
  "syllable l v t = 0xAC00 + ((l - 0x1100) * 21 + (v - 0x1161)) * 28 + t"

fun hangul_compose :: "pystr \<Rightarrow> pystr" where
  "hangul_compose (l # v # t # cs) =
     (if is_L l \<and> is_V v \<and> is_T t then syllable l v (t - 0x11A7) # hangul_compose cs
      else if is_L l \<and> is_V v then syllable l v 0 # hangul_compose (t # cs)
      else l # hangul_compose (v # t # cs))"
| "hangul_compose [l, v] = (if is_L l \<and> is_V v then [syllable l v 0] else [l, v])"
| "hangul_compose cs = cs"

text \<open>The school names and file names of the source, as code points.\<close>

definition songdo :: pystr where "songdo = [0xC1A1, 0xB3C4, 0xACE0]"
definition haneul :: pystr where "haneul = [0xD558, 0xB298, 0xACE0]"
definition ara :: pystr where "ara = [0xC544, 0xB77C, 0xACE0]"
definition dongsan :: pystr where "dongsan = [0xB3D9, 0xC0B0, 0xACE0]"

definition env_suffix :: pystr where
  "env_suffix = [0x5F, 0xD658, 0xACBD, 0xB370, 0xC774, 0xD130] @ ascii ''.csv''"

definition csv_targets :: "pystr list" where
  "csv_targets = [songdo @ env_suffix, haneul @ env_suffix, ara @ env_suffix, dongsan @ env_suffix]"

definition xlsx_name :: pystr where
  "xlsx_name = [0x34, 0xAC1C, 0xAD50, 0x5F, 0xC0DD, 0xC721, 0xACB0, 0xACFC, 0xB370, 0xC774, 0xD130]
               @ ascii ''.xlsx''"

text \<open>The first file name written with decomposed jamo, as some file systems store it.\<close>

definition songdo_nfd :: pystr where
  "songdo_nfd = [0x1109, 0x1169, 0x11BC, 0x1103, 0x1169, 0x1100, 0x1169]"

section \<open>Tables\<close>

text \<open>
  A pandas DataFrame: its column labels in order and its rows, each row an association of
  column label to cell. A cell that a row does not have reads as NaN, as pandas fills it.
  Row labels (the index) are not modelled; nothing in the script reads them.
\<close>

type_synonym row = "(pystr, pyval) pydict"

record dataframe =
  columns :: "pystr list"
  rws :: "row list"

definition cell_at :: "row \<Rightarrow> pystr \<Rightarrow> pyval" where
  "cell_at r c = (case map_of r c of None \<Rightarrow> PyFloat NaN | Some v \<Rightarrow> v)"

text \<open>The representation invariant: distinct labels, and every row has exactly them.\<close>

definition wf_df :: "dataframe \<Rightarrow> bool" where
  "wf_df df = (distinct (columns df) \<and> list_all (\<lambda>r. map fst r = columns df) (rws df))"

text \<open>\<open>len(df)\<close>\<close>

definition len_df :: "dataframe \<Rightarrow> nat" where
  "len_df df = length (rws df)"

text \<open>\<open>df[c] = v\<close> with a scalar \<open>v\<close>: every row gets \<open>v\<close> in column \<open>c\<close>.\<close>

definition setitem :: "dataframe \<Rightarrow> pystr \<Rightarrow> pyval \<Rightarrow> dataframe" where
  "setitem df c v =
     \<lparr>columns = (if c \<in> set (columns df) then columns df else columns df @ [c]),
      rws = map (\<lambda>r. dict_set r c v) (rws df)\<rparr>"

text \<open>\<open>df[c]\<close>: the column as a series, KeyError when there is no such label.\<close>

definition getitem :: "dataframe \<Rightarrow> pystr \<Rightarrow> error + pyval list" where
  "getitem df c =
     (if c \<in> set (columns df) then Inr (map (\<lambda>r. cell_at r c) (rws df)) else Inl KeyError)"

text \<open>\<open>series.iloc[0]\<close>\<close>

definition iloc0 :: "pyval list \<Rightarrow> error + pyval" where
  "iloc0 s = (case s of [] \<Rightarrow> Inl IndexError | v # _ \<Rightarrow> Inr v)"

text \<open>
  \<open>series.mean()\<close>: a series holding text raises TypeError; NaN cells are skipped, and
  with no number left the mean is NaN (there is no division by zero); otherwise the mean
  is what pandas computes in double arithmetic from the cells of the series, \<open>fmean\<close> of
  them.
\<close>

fun is_text :: "pyval \<Rightarrow> bool" where
  "is_text (PyStr _) = True"
| "is_text (PyFloat _) = False"

fun floats :: "pyval list \<Rightarrow> pyfloat list" where
  "floats [] = []"
| "floats (PyFloat x # s) = x # floats s"
| "floats (PyStr _ # s) = floats s"

definition series_mean :: "(pyfloat list \<Rightarrow> pyfloat) \<Rightarrow> pyval list \<Rightarrow> error + pyfloat" where
  "series_mean fmean s =
     (if list_ex is_text s then Inl TypeError
      else if list_all (\<lambda>x. x = NaN) (floats s) then Inr NaN
      else Inr (fmean (floats s)))"

text \<open>\<open>df[c].mean()\<close>\<close>

definition column_mean :: "(pyfloat list \<Rightarrow> pyfloat) \<Rightarrow> dataframe \<Rightarrow> pystr \<Rightarrow> error + pyfloat" where
  "column_mean fmean df c =
     (case getitem df c of Inl e \<Rightarrow> Inl e | Inr s \<Rightarrow> series_mean fmean s)"

text \<open>
  \<open>pd.concat(tables)\<close>: ValueError on no tables; otherwise the labels are the union of the
  tables' labels in order of first appearance and the rows follow each other, each
  re-indexed to the union (NaN where its table had no such column).
\<close>

definition reindex :: "pystr list \<Rightarrow> row \<Rightarrow> row" where
  "reindex cols r = map (\<lambda>c. (c, cell_at r c)) cols"

definition pd_concat :: "dataframe list \<Rightarrow> error + dataframe" where
  "pd_concat dfs =
     (if dfs = [] then Inl ValueError
      else let cols = rev (remdups (rev (concat (map columns dfs))))
           in Inr \<lparr>columns = cols, rws = map (reindex cols) (concat (map rws dfs))\<rparr>)"

section \<open>Dataset loader\<close>

text \<open>What the script shows, in order: the data-bearing calls and the error messages.\<close>

record overview_row =
  ov_school :: pyval
  ov_ec :: "pyfloat option"
  ov_count :: nat
  ov_color :: "pystr option"

record avg_row =
  av_school :: pyval
  av_temperature :: pyfloat
  av_humidity :: pyfloat
  av_ph :: pyfloat
  av_ec :: pyfloat
  av_target :: pyfloat

record ec_row =
  ew_school :: pyval
  ew_ec :: pyfloat
  ew_weight :: pyfloat

datatype event =
    Env_file_missing pystr
  | Growth_file_missing
  | Overview_table "overview_row list"
  | Metrics nat pyfloat pyfloat pyfloat pyval
  | Averages_chart "avg_row list"
  | Timeseries_chart pyval dataframe pyfloat
  | Env_table dataframe
  | Weight_chart "ec_row list"
  | Box_chart dataframe
  | Scatter_chart dataframe pystr
  | Growth_table dataframe

definition school_col :: pystr where "school_col = ascii ''school''"

text \<open>\<open>name.split("_")[0]\<close>: the text before the first underscore.\<close>

definition split_first :: "pystr \<Rightarrow> pystr" where
  "split_first name = takeWhile (\<lambda>c. c \<noteq> 0x5F) name"

text \<open>
  \<open>load_environment_data\<close>. \<open>read_csv\<close> is pandas' reader applied to a resolved file:
  its table, or the error it raises. The result is the messages shown by \<open>st.error\<close> and
  the mapping, or the exception that ended the call.
\<close>

fun load_env_loop ::
  "(pystr \<Rightarrow> pystr) \<Rightarrow> pystr list option \<Rightarrow> (pystr \<Rightarrow> error + dataframe) \<Rightarrow> pystr list
   \<Rightarrow> (pyval, dataframe) pydict \<Rightarrow> event list \<times> (error + (pyval, dataframe) pydict)" where
  "load_env_loop nfc DATA_DIR read_csv [] env_data = ([], Inr env_data)"
| "load_env_loop nfc DATA_DIR read_csv (name # names) env_data =
     (case find_file_safe nfc DATA_DIR name of
        Inl e \<Rightarrow> ([], Inl e)
      | Inr None \<Rightarrow>
          (let (msgs, r) = load_env_loop nfc DATA_DIR read_csv names env_data
           in (Env_file_missing name # msgs, r))
      | Inr (Some file_path) \<Rightarrow>
          (case read_csv file_path of
             Inl e \<Rightarrow> ([], Inl e)
           | Inr df0 \<Rightarrow>
               (let df = setitem df0 school_col (PyStr (split_first name))
                in case getitem df school_col of
                     Inl e \<Rightarrow> ([], Inl e)
                   | Inr s \<Rightarrow>
                       (case iloc0 s of
                          Inl e \<Rightarrow> ([], Inl e)
                        | Inr key \<Rightarrow>
                            load_env_loop nfc DATA_DIR read_csv names
                              (dict_set env_data key df)))))"

definition load_environment_data ::
  "(pystr \<Rightarrow> pystr) \<Rightarrow> pystr list option \<Rightarrow> (pystr \<Rightarrow> error + dataframe)
   \<Rightarrow> event list \<times> (error + (pyval, dataframe) pydict)" where
  "load_environment_data nfc DATA_DIR read_csv =
     load_env_loop nfc DATA_DIR read_csv csv_targets []"

text \<open>
  \<open>load_growth_data\<close>. \<open>read_excel\<close> gives the workbook's sheets in order, each with its
  name and its table, or the error that opening or parsing the workbook raises.
\<close>

fun load_growth_loop ::
  "(pystr \<times> dataframe) list \<Rightarrow> (pyval, dataframe) pydict \<Rightarrow> (pyval, dataframe) pydict" where
  "load_growth_loop [] growth_data = growth_data"
| "load_growth_loop ((sheet, df0) # sheets) growth_data =
     (let df = setitem df0 school_col (PyStr sheet)
      in load_growth_loop sheets (dict_set growth_data (PyStr sheet) df))"

definition load_growth_data ::
  "(pystr \<Rightarrow> pystr) \<Rightarrow> pystr list option \<Rightarrow> (pystr \<Rightarrow> error + (pystr \<times> dataframe) list)
   \<Rightarrow> event list \<times> (error + (pyval, dataframe) pydict)" where
  "load_growth_data nfc DATA_DIR read_excel =
     (case find_file_safe nfc DATA_DIR xlsx_name of
        Inl e \<Rightarrow> ([], Inl e)
      | Inr None \<Rightarrow> ([Growth_file_missing], Inr [])
      | Inr (Some file_path) \<Rightarrow>
          (case read_excel file_path of
             Inl e \<Rightarrow> ([], Inl e)
           | Inr sheets \<Rightarrow> ([], Inr (load_growth_loop sheets []))))"

section \<open>Experiment design table\<close>

definition EC_MAP :: "(pyval, pyfloat) pydict" where
  "EC_MAP = [(PyStr songdo, Num 1), (PyStr haneul, Num 2), (PyStr ara, Num 4),
             (PyStr dongsan, Num 8)]"

definition COLOR_MAP :: "(pyval, pystr) pydict" where
  "COLOR_MAP = [(PyStr songdo, ascii ''#1f77b4''), (PyStr haneul, ascii ''#2ca02c''),
                (PyStr ara, ascii ''#ff7f0e''), (PyStr dongsan, ascii ''#d62728'')]"

section \<open>Aggregation\<close>

definition temperature_col :: pystr where "temperature_col = ascii ''temperature''"
definition humidity_col :: pystr where "humidity_col = ascii ''humidity''"
definition ph_col :: pystr where "ph_col = ascii ''ph''"
definition ec_col :: pystr where "ec_col = ascii ''ec''"
definition time_col :: pystr where "time_col = ascii ''time''"
definition weight_col :: pystr where "weight_col = [0xC0DD, 0xC911, 0xB7C9] @ ascii ''(g)''"
definition leaf_col :: pystr where "leaf_col = [0xC78E, 0x20, 0xC218, 0x28, 0xC7A5, 0x29]"
definition shoot_col :: pystr where
  "shoot_col = [0xC9C0, 0xC0C1, 0xBD80, 0x20, 0xAE38, 0xC774] @ ascii ''(mm)''"

text \<open>The sidebar: \<open>school_option\<close> is the selected entry of the select box.\<close>

definition all_option :: pystr where "all_option = [0xC804, 0xCCB4]"

definition selected_schools :: "(pyval, dataframe) pydict \<Rightarrow> pystr \<Rightarrow> pyval list" where
  "selected_schools env_data school_option =
     (if school_option = all_option then dict_keys env_data else [PyStr school_option])"

text \<open>The overview loop of the first tab: \<open>overview_rows\<close> and \<open>total_plants\<close>.\<close>

fun overview_loop ::
  "(pyval, dataframe) pydict \<Rightarrow> overview_row list \<Rightarrow> nat \<Rightarrow> overview_row list \<times> nat" where
  "overview_loop [] overview_rows total_plants = (overview_rows, total_plants)"
| "overview_loop ((school, df) # items) overview_rows total_plants =
     (let count = len_df df
      in overview_loop items
           (overview_rows @
              [\<lparr>ov_school = school, ov_ec = dict_get EC_MAP school, ov_count = count,
                ov_color = dict_get COLOR_MAP school\<rparr>])
           (total_plants + count))"

definition overview :: "(pyval, dataframe) pydict \<Rightarrow> overview_row list \<times> nat" where
  "overview growth_data = overview_loop growth_data [] 0"

text \<open>\<open>pd.concat(d.values())\<close>: \<open>full_env\<close> and \<open>all_growth\<close>.\<close>

definition concatenate :: "(pyval, dataframe) pydict \<Rightarrow> error + dataframe" where
  "concatenate d = pd_concat (dict_values d)"

text \<open>\<open>pd.concat(env_data.values())[c].mean()\<close>: \<open>avg_temp\<close> and \<open>avg_hum\<close>.\<close>

definition overall_mean :: "(pyfloat list \<Rightarrow> pyfloat) \<Rightarrow> (pyval, dataframe) pydict \<Rightarrow> pystr \<Rightarrow> error + pyfloat" where
  "overall_mean fmean env_data c =
     (case concatenate env_data of
        Inl e \<Rightarrow> Inl e
      | Inr df \<Rightarrow> column_mean fmean df c)"

text \<open>The dictionary comprehension \<open>weight_means\<close>.\<close>

fun weight_means_loop ::
  "(pyfloat list \<Rightarrow> pyfloat) \<Rightarrow> (pyval, dataframe) pydict \<Rightarrow> (pyval, pyfloat) pydict \<Rightarrow> error + (pyval, pyfloat) pydict" where
  "weight_means_loop fmean [] acc = Inr acc"
| "weight_means_loop fmean ((school, df) # items) acc =
     (case column_mean fmean df weight_col of
        Inl e \<Rightarrow> Inl e
      | Inr m \<Rightarrow> weight_means_loop fmean items (dict_set acc school m))"

definition weight_means :: "(pyfloat list \<Rightarrow> pyfloat) \<Rightarrow> (pyval, dataframe) pydict \<Rightarrow> error + (pyval, pyfloat) pydict" where
  "weight_means fmean growth_data = weight_means_loop fmean growth_data []"

text \<open>
  \<open>max(d, key=d.get)\<close>: the keys are visited in insertion order, \<open>d.get\<close> gives each key
  its stored value, and the candidate is replaced only by a key whose value is \<open>>\<close> the
  candidate's; ValueError on an empty dictionary.
\<close>

fun max_loop :: "'k \<times> pyfloat \<Rightarrow> ('k, pyfloat) pydict \<Rightarrow> 'k" where
  "max_loop (best, bv) [] = best"
| "max_loop (best, bv) ((k, v) # items) =
     (if fgt v bv then max_loop (k, v) items else max_loop (best, bv) items)"

definition py_max :: "('k, pyfloat) pydict \<Rightarrow> error + 'k" where
  "py_max d = (case d of [] \<Rightarrow> Inl ValueError | item # items \<Rightarrow> Inr (max_loop item items))"

definition optimal_school :: "(pyfloat list \<Rightarrow> pyfloat) \<Rightarrow> (pyval, dataframe) pydict \<Rightarrow> error + pyval" where
  "optimal_school fmean growth_data =
     (case weight_means fmean growth_data of
        Inl e \<Rightarrow> Inl e
      | Inr wm \<Rightarrow> py_max wm)"

text \<open>The averages loop of the second tab: \<open>avg_rows\<close>.\<close>

fun avg_rows_loop ::
  "(pyfloat list \<Rightarrow> pyfloat) \<Rightarrow> (pyval, dataframe) pydict \<Rightarrow> pyval list \<Rightarrow> avg_row list \<Rightarrow> error + avg_row list" where
  "avg_rows_loop fmean env_data [] avg_rows = Inr avg_rows"
| "avg_rows_loop fmean env_data (school # schools) avg_rows =
     (case dict_index env_data school of
        Inl e \<Rightarrow> Inl e
      | Inr df \<Rightarrow>
     (case column_mean fmean df temperature_col of
        Inl e \<Rightarrow> Inl e
      | Inr t \<Rightarrow>
     (case column_mean fmean df humidity_col of
        Inl e \<Rightarrow> Inl e
      | Inr h \<Rightarrow>
     (case column_mean fmean df ph_col of
        Inl e \<Rightarrow> Inl e
      | Inr p \<Rightarrow>
     (case column_mean fmean df ec_col of
        Inl e \<Rightarrow> Inl e
      | Inr c \<Rightarrow>
     (case dict_index EC_MAP school of
        Inl e \<Rightarrow> Inl e
      | Inr target \<Rightarrow>
          avg_rows_loop fmean env_data schools
            (avg_rows @
               [\<lparr>av_school = school, av_temperature = t, av_humidity = h, av_ph = p,
                 av_ec = c, av_target = target\<rparr>])))))))"

definition avg_rows :: "(pyfloat list \<Rightarrow> pyfloat) \<Rightarrow> (pyval, dataframe) pydict \<Rightarrow> pyval list \<Rightarrow> error + avg_row list" where
  "avg_rows fmean env_data selected = avg_rows_loop fmean env_data selected []"

text \<open>The weight-by-source loop of the third tab: \<open>ec_weight\<close>.\<close>

fun ec_weight_loop :: "(pyfloat list \<Rightarrow> pyfloat) \<Rightarrow> (pyval, dataframe) pydict \<Rightarrow> ec_row list \<Rightarrow> error + ec_row list" where
  "ec_weight_loop fmean [] ec_weight = Inr ec_weight"
| "ec_weight_loop fmean ((school, df) # items) ec_weight =
     (case dict_index EC_MAP school of
        Inl e \<Rightarrow> Inl e
      | Inr target \<Rightarrow>
     (case column_mean fmean df weight_col of
        Inl e \<Rightarrow> Inl e
      | Inr m \<Rightarrow>
          ec_weight_loop fmean items
            (ec_weight @ [\<lparr>ew_school = school, ew_ec = target, ew_weight = m\<rparr>])))"

definition ec_weight :: "(pyfloat list \<Rightarrow> pyfloat) \<Rightarrow> (pyval, dataframe) pydict \<Rightarrow> error + ec_row list" where
  "ec_weight fmean growth_data = ec_weight_loop fmean growth_data []"

section \<open>The script\<close>

text \<open>
  A run of the script ends by reaching its last line, by \<open>st.stop()\<close>, or by an uncaught
  exception. Each part returns what it has shown up to its end.
\<close>

datatype outcome = Completed | Stopped | Raised error

text \<open>The plotly express calls raise ValueError for a column name the table lacks.\<close>

definition px_columns_ok :: "dataframe \<Rightarrow> pystr list \<Rightarrow> bool" where
  "px_columns_ok df cols = list_all (\<lambda>c. c \<in> set (columns df)) cols"

definition tab1 ::
  "(pyfloat list \<Rightarrow> pyfloat) \<Rightarrow> (pyval, dataframe) pydict \<Rightarrow> (pyval, dataframe) pydict \<Rightarrow> event list \<times> error option" where
  "tab1 fmean env_data growth_data =
     (let (overview_rows, total_plants) = overview growth_data;
          shown = [Overview_table overview_rows]
      in case overall_mean fmean env_data temperature_col of
           Inl e \<Rightarrow> (shown, Some e)
         | Inr avg_temp \<Rightarrow>
        (case overall_mean fmean env_data humidity_col of
           Inl e \<Rightarrow> (shown, Some e)
         | Inr avg_hum \<Rightarrow>
        (case optimal_school fmean growth_data of
           Inl e \<Rightarrow> (shown, Some e)
         | Inr best \<Rightarrow>
        (case dict_index EC_MAP best of
           Inl e \<Rightarrow> (shown, Some e)
         | Inr optimal_ec \<Rightarrow>
             (shown @ [Metrics total_plants avg_temp avg_hum optimal_ec best], None)))))"

fun timeseries_loop ::
  "(pyval, dataframe) pydict \<Rightarrow> pyval list \<Rightarrow> event list \<times> error option" where
  "timeseries_loop env_data [] = ([], None)"
| "timeseries_loop env_data (school # schools) =
     (case dict_index env_data school of
        Inl e \<Rightarrow> ([], Some e)
      | Inr df \<Rightarrow>
          if \<not> px_columns_ok df [time_col, temperature_col, humidity_col, ec_col]
          then ([], Some ValueError)
          else (case dict_index EC_MAP school of
                  Inl e \<Rightarrow> ([], Some e)
                | Inr target \<Rightarrow>
                    (let (shown, r) = timeseries_loop env_data schools
                     in (Timeseries_chart school df target # shown, r))))"

definition tab2 ::
  "(pyfloat list \<Rightarrow> pyfloat) \<Rightarrow> (pyval, dataframe) pydict \<Rightarrow> pyval list \<Rightarrow> event list \<times> error option" where
  "tab2 fmean env_data selected =
     (case avg_rows fmean env_data selected of
        Inl e \<Rightarrow> ([], Some e)
      | Inr rows \<Rightarrow>
          (case timeseries_loop env_data selected of
             (shown, Some e) \<Rightarrow> (Averages_chart rows # shown, Some e)
           | (shown, None) \<Rightarrow>
               (case concatenate env_data of
                  Inl e \<Rightarrow> (Averages_chart rows # shown, Some e)
                | Inr full_env \<Rightarrow> (Averages_chart rows # shown @ [Env_table full_env], None))))"

definition tab3 :: "(pyfloat list \<Rightarrow> pyfloat) \<Rightarrow> (pyval, dataframe) pydict \<Rightarrow> event list \<times> error option" where
  "tab3 fmean growth_data =
     (case ec_weight fmean growth_data of
        Inl e \<Rightarrow> ([], Some e)
      | Inr rows \<Rightarrow>
          (case concatenate growth_data of
             Inl e \<Rightarrow> ([Weight_chart rows], Some e)
           | Inr all_growth \<Rightarrow>
               if \<not> px_columns_ok all_growth [school_col, weight_col]
               then ([Weight_chart rows], Some ValueError)
               else if \<not> px_columns_ok all_growth [leaf_col, weight_col, school_col]
               then ([Weight_chart rows, Box_chart all_growth], Some ValueError)
               else if \<not> px_columns_ok all_growth [shoot_col, weight_col, school_col]
               then ([Weight_chart rows, Box_chart all_growth,
                      Scatter_chart all_growth leaf_col], Some ValueError)
               else ([Weight_chart rows, Box_chart all_growth,
                      Scatter_chart all_growth leaf_col, Scatter_chart all_growth shoot_col,
                      Growth_table all_growth], None)))"

text \<open>
  Everything after the two loads: the emptiness check of lines 107-108 with \<open>st.stop()\<close>,
  then the three tabs.
\<close>

definition render ::
  "(pyfloat list \<Rightarrow> pyfloat) \<Rightarrow> (pyval, dataframe) pydict \<Rightarrow> (pyval, dataframe) pydict \<Rightarrow> pystr \<Rightarrow> event list \<times> outcome" where
  "render fmean env_data growth_data school_option =
     (if env_data = [] \<or> growth_data = [] then ([], Stopped)
      else let selected = selected_schools env_data school_option
           in case tab1 fmean env_data growth_data of
                (s1, Some e) \<Rightarrow> (s1, Raised e)
              | (s1, None) \<Rightarrow>
             (case tab2 fmean env_data selected of
                (s2, Some e) \<Rightarrow> (s1 @ s2, Raised e)
              | (s2, None) \<Rightarrow>
             (case tab3 fmean growth_data of
                (s3, Some e) \<Rightarrow> (s1 @ s2 @ s3, Raised e)
              | (s3, None) \<Rightarrow> (s1 @ s2 @ s3, Completed))))"

definition dashboard ::
  "(pystr \<Rightarrow> pystr) \<Rightarrow> (pyfloat list \<Rightarrow> pyfloat) \<Rightarrow> pystr list option
   \<Rightarrow> (pystr \<Rightarrow> error + dataframe) \<Rightarrow> (pystr \<Rightarrow> error + (pystr \<times> dataframe) list)
   \<Rightarrow> pystr \<Rightarrow> event list \<times> outcome" where
  "dashboard nfc fmean DATA_DIR read_csv read_excel school_option =
     (case load_environment_data nfc DATA_DIR read_csv of
        (m1, Inl e) \<Rightarrow> (m1, Raised e)
      | (m1, Inr env_data) \<Rightarrow>
          (case load_growth_data nfc DATA_DIR read_excel of
             (m2, Inl e) \<Rightarrow> (m1 @ m2, Raised e)
           | (m2, Inr growth_data) \<Rightarrow>
               (let (shown, r) = render fmean env_data growth_data school_option
                in (m1 @ m2 @ shown, r))))"

section \<open>The script over a store of objects\<close>

text \<open>
  The functions above compute with values. To speak of mutation and of new objects, the
  same statements are written once more over a store. An address is a position in the
  list of allocated objects; the two cached mappings are the dictionaries that the
  variables \<open>env_data\<close> and \<open>growth_data\<close> refer to, and they hold addresses of tables.
  A statement that creates an object (a list display, a pandas reader,
  \<open>pd.DataFrame(...)\<close>, \<open>pd.concat(...)\<close>) appends it to the store; \<open>df[c] = v\<close> and
  \<open>rows.append(r)\<close> replace the object at the address they are applied to; \<open>d[k] = df\<close>
  changes the dictionary. \<open>len(df)\<close>, \<open>df[c]\<close>, \<open>.mean()\<close>, \<open>.iloc[0]\<close> and \<open>.get\<close> read.
  When a statement raises, the store is the one reached at that point.
\<close>

datatype pyobj =
    Table dataframe
  | OverviewRows "overview_row list"
  | OverviewFrame "overview_row list"
  | AvgRows "avg_row list"
  | AvgFrame "avg_row list"
  | EcRows "ec_row list"
  | EcFrame "ec_row list"

record store =
  st_heap :: "pyobj list"
  st_env_data :: "(pyval, nat) pydict"
  st_growth_data :: "(pyval, nat) pydict"

definition new_object :: "store \<Rightarrow> pyobj \<Rightarrow> store \<times> nat" where
  "new_object st obj = (st\<lparr>st_heap := st_heap st @ [obj]\<rparr>, length (st_heap st))"

text \<open>
  Reading the object at an address as the kind of object the variable holds. The
  variables of the script always hold an allocated object of their kind; the other
  branches are there because HOL functions are total.
\<close>

definition table_at :: "pyobj list \<Rightarrow> nat \<Rightarrow> dataframe" where
  "table_at h a =
     (if a < length h then (case h ! a of Table df \<Rightarrow> df | _ \<Rightarrow> \<lparr>columns = [], rws = []\<rparr>)
      else \<lparr>columns = [], rws = []\<rparr>)"

definition overview_rows_at :: "pyobj list \<Rightarrow> nat \<Rightarrow> overview_row list" where
  "overview_rows_at h a =
     (if a < length h then (case h ! a of OverviewRows rows \<Rightarrow> rows | _ \<Rightarrow> []) else [])"

definition avg_rows_at :: "pyobj list \<Rightarrow> nat \<Rightarrow> avg_row list" where
  "avg_rows_at h a =
     (if a < length h then (case h ! a of AvgRows rows \<Rightarrow> rows | _ \<Rightarrow> []) else [])"

definition ec_rows_at :: "pyobj list \<Rightarrow> nat \<Rightarrow> ec_row list" where
  "ec_rows_at h a =
     (if a < length h then (case h ! a of EcRows rows \<Rightarrow> rows | _ \<Rightarrow> []) else [])"

text \<open>The tables that a mapping of addresses denotes.\<close>

definition tables_of :: "pyobj list \<Rightarrow> (pyval, nat) pydict \<Rightarrow> (pyval, dataframe) pydict" where
  "tables_of h d = map (\<lambda>(k, a). (k, table_at h a)) d"

definition refs_ok :: "store \<Rightarrow> bool" where
  "refs_ok st = list_all (\<lambda>(k, a). a < length (st_heap st)) (st_env_data st @ st_growth_data st)"

text \<open>The statements that change an object in place.\<close>

definition table_setitem :: "store \<Rightarrow> nat \<Rightarrow> pystr \<Rightarrow> pyval \<Rightarrow> store" where
  "table_setitem st a c v =
     st\<lparr>st_heap := (st_heap st)[a := Table (setitem (table_at (st_heap st) a) c v)]\<rparr>"

definition overview_append :: "store \<Rightarrow> nat \<Rightarrow> overview_row \<Rightarrow> store" where
  "overview_append st a r =
     st\<lparr>st_heap := (st_heap st)[a := OverviewRows (overview_rows_at (st_heap st) a @ [r])]\<rparr>"

definition avg_append :: "store \<Rightarrow> nat \<Rightarrow> avg_row \<Rightarrow> store" where
  "avg_append st a r =
     st\<lparr>st_heap := (st_heap st)[a := AvgRows (avg_rows_at (st_heap st) a @ [r])]\<rparr>"

definition ec_append :: "store \<Rightarrow> nat \<Rightarrow> ec_row \<Rightarrow> store" where
  "ec_append st a r =
     st\<lparr>st_heap := (st_heap st)[a := EcRows (ec_rows_at (st_heap st) a @ [r])]\<rparr>"

subsection \<open>The loaders\<close>

text \<open>
  Lines 75-77 and 94-96: the reader returns a new table, \<open>df["school"] = ...\<close> changes that
  table in place, and the dictionary gets its address.
\<close>

fun load_env_store ::
  "(pystr \<Rightarrow> pystr) \<Rightarrow> pystr list option \<Rightarrow> (pystr \<Rightarrow> error + dataframe) \<Rightarrow> pystr list
   \<Rightarrow> store \<Rightarrow> store \<times> event list \<times> error option" where
  "load_env_store nfc DATA_DIR read_csv [] st = (st, [], None)"
| "load_env_store nfc DATA_DIR read_csv (name # names) st =
     (case find_file_safe nfc DATA_DIR name of
        Inl e \<Rightarrow> (st, [], Some e)
      | Inr None \<Rightarrow>
          (let (st', msgs, r) = load_env_store nfc DATA_DIR read_csv names st
           in (st', Env_file_missing name # msgs, r))
      | Inr (Some file_path) \<Rightarrow>
          (case read_csv file_path of
             Inl e \<Rightarrow> (st, [], Some e)
           | Inr df0 \<Rightarrow>
               (let (st1, df) = new_object st (Table df0);
                    st2 = table_setitem st1 df school_col (PyStr (split_first name))
                in case getitem (table_at (st_heap st2) df) school_col of
                     Inl e \<Rightarrow> (st2, [], Some e)
                   | Inr s \<Rightarrow>
                       (case iloc0 s of
                          Inl e \<Rightarrow> (st2, [], Some e)
                        | Inr key \<Rightarrow>
                            load_env_store nfc DATA_DIR read_csv names
                              (st2\<lparr>st_env_data := dict_set (st_env_data st2) key df\<rparr>)))))"

fun load_growth_store :: "(pystr \<times> dataframe) list \<Rightarrow> store \<Rightarrow> store" where
  "load_growth_store [] st = st"
| "load_growth_store ((sheet, df0) # sheets) st =
     (let (st1, df) = new_object st (Table df0);
          st2 = table_setitem st1 df school_col (PyStr sheet)
      in load_growth_store sheets
           (st2\<lparr>st_growth_data := dict_set (st_growth_data st2) (PyStr sheet) df\<rparr>))"

subsection \<open>The aggregation blocks\<close>

text \<open>
  Lines 159-174: \<open>overview_rows = []\<close>, the loop over \<open>growth_data.items()\<close> that appends
  to it, and \<open>overview_df = pd.DataFrame(overview_rows, ...)\<close>. The result is the store,
  the addresses of \<open>overview_rows\<close> and \<open>overview_df\<close>, and \<open>total_plants\<close>.
\<close>

fun overview_store_loop :: "store \<Rightarrow> nat \<Rightarrow> (pyval, nat) pydict \<Rightarrow> nat \<Rightarrow> store \<times> nat" where
  "overview_store_loop st overview_rows [] total_plants = (st, total_plants)"
| "overview_store_loop st overview_rows ((school, df) # items) total_plants =
     (let count = len_df (table_at (st_heap st) df)
      in overview_store_loop
           (overview_append st overview_rows
              \<lparr>ov_school = school, ov_ec = dict_get EC_MAP school, ov_count = count,
               ov_color = dict_get COLOR_MAP school\<rparr>)
           overview_rows items (total_plants + count))"

definition overview_block :: "store \<Rightarrow> store \<times> nat \<times> nat \<times> nat" where
  "overview_block st =
     (let (st1, overview_rows) = new_object st (OverviewRows []);
          (st2, total_plants) = overview_store_loop st1 overview_rows (st_growth_data st1) 0;
          (st3, overview_df) =
             new_object st2 (OverviewFrame (overview_rows_at (st_heap st2) overview_rows))
      in (st3, overview_rows, overview_df, total_plants))"

text \<open>
  Lines 201-216: \<open>avg_rows = []\<close>, the loop over \<open>selected_schools\<close>, and \<open>avg_df\<close>.
\<close>

fun averages_store_loop ::
  "(pyfloat list \<Rightarrow> pyfloat) \<Rightarrow> store \<Rightarrow> nat \<Rightarrow> pyval list \<Rightarrow> store \<times> error option" where
  "averages_store_loop fmean st avg_rows_obj [] = (st, None)"
| "averages_store_loop fmean st avg_rows_obj (school # schools) =
     (case dict_index (st_env_data st) school of
        Inl e \<Rightarrow> (st, Some e)
      | Inr df \<Rightarrow>
     (case column_mean fmean (table_at (st_heap st) df) temperature_col of
        Inl e \<Rightarrow> (st, Some e)
      | Inr t \<Rightarrow>
     (case column_mean fmean (table_at (st_heap st) df) humidity_col of
        Inl e \<Rightarrow> (st, Some e)
      | Inr h \<Rightarrow>
     (case column_mean fmean (table_at (st_heap st) df) ph_col of
        Inl e \<Rightarrow> (st, Some e)
      | Inr p \<Rightarrow>
     (case column_mean fmean (table_at (st_heap st) df) ec_col of
        Inl e \<Rightarrow> (st, Some e)
      | Inr c \<Rightarrow>
     (case dict_index EC_MAP school of
        Inl e \<Rightarrow> (st, Some e)
      | Inr target \<Rightarrow>
          averages_store_loop fmean
            (avg_append st avg_rows_obj
               \<lparr>av_school = school, av_temperature = t, av_humidity = h, av_ph = p,
                av_ec = c, av_target = target\<rparr>)
            avg_rows_obj schools))))))"

definition averages_block ::
  "(pyfloat list \<Rightarrow> pyfloat) \<Rightarrow> store \<Rightarrow> pyval list \<Rightarrow> store \<times> (error + nat \<times> nat)" where
  "averages_block fmean st selected =
     (let (st1, avg_rows_obj) = new_object st (AvgRows [])
      in case averages_store_loop fmean st1 avg_rows_obj selected of
           (st2, Some e) \<Rightarrow> (st2, Inl e)
         | (st2, None) \<Rightarrow>
             (let (st3, avg_df) = new_object st2 (AvgFrame (avg_rows_at (st_heap st2) avg_rows_obj))
              in (st3, Inr (avg_rows_obj, avg_df))))"

text \<open>Lines 267-271: \<open>ec_weight = []\<close>, the loop over \<open>growth_data.items()\<close>, and \<open>ec_df\<close>.\<close>

fun weight_store_loop ::
  "(pyfloat list \<Rightarrow> pyfloat) \<Rightarrow> store \<Rightarrow> nat \<Rightarrow> (pyval, nat) pydict \<Rightarrow> store \<times> error option" where
  "weight_store_loop fmean st ec_weight_obj [] = (st, None)"
| "weight_store_loop fmean st ec_weight_obj ((school, df) # items) =
     (case dict_index EC_MAP school of
        Inl e \<Rightarrow> (st, Some e)
      | Inr target \<Rightarrow>
     (case column_mean fmean (table_at (st_heap st) df) weight_col of
        Inl e \<Rightarrow> (st, Some e)
      | Inr m \<Rightarrow>
          weight_store_loop fmean
            (ec_append st ec_weight_obj \<lparr>ew_school = school, ew_ec = target, ew_weight = m\<rparr>)
            ec_weight_obj items))"

definition weight_block ::
  "(pyfloat list \<Rightarrow> pyfloat) \<Rightarrow> store \<Rightarrow> store \<times> (error + nat \<times> nat)" where
  "weight_block fmean st =
     (let (st1, ec_weight_obj) = new_object st (EcRows [])
      in case weight_store_loop fmean st1 ec_weight_obj (st_growth_data st1) of
           (st2, Some e) \<Rightarrow> (st2, Inl e)
         | (st2, None) \<Rightarrow>
             (let (st3, ec_df) = new_object st2 (EcFrame (ec_rows_at (st_heap st2) ec_weight_obj))
              in (st3, Inr (ec_weight_obj, ec_df))))"

text \<open>
  Lines 247 and 283 (and 179-180): \<open>pd.concat\<close> reads the tables of the mapping and returns
  a new table.
\<close>

definition concat_env_block :: "store \<Rightarrow> store \<times> (error + nat)" where
  "concat_env_block st =
     (case concatenate (tables_of (st_heap st) (st_env_data st)) of
        Inl e \<Rightarrow> (st, Inl e)
      | Inr t \<Rightarrow> (let (st', full_env) = new_object st (Table t) in (st', Inr full_env)))"

definition concat_growth_block :: "store \<Rightarrow> store \<times> (error + nat)" where
  "concat_growth_block st =
     (case concatenate (tables_of (st_heap st) (st_growth_data st)) of
        Inl e \<Rightarrow> (st, Inl e)
      | Inr t \<Rightarrow> (let (st', all_growth) = new_object st (Table t) in (st', Inr all_growth)))"

section \<open>Descriptions used by the theorems\<close>

text \<open>
  What the environment loader is expected to return: for each target in order whose file
  resolves and parses, its identity with the tagged table.
\<close>

definition loaded_sources ::
  "(pystr \<Rightarrow> pystr) \<Rightarrow> pystr list option \<Rightarrow> (pystr \<Rightarrow> error + dataframe) \<Rightarrow> pystr list
   \<Rightarrow> (pyval, dataframe) pydict" where
  "loaded_sources nfc dir rc names =
     concat (map (\<lambda>name.
       case find_file_safe nfc dir name of
         Inr (Some f) \<Rightarrow>
           (case rc f of
              Inr df \<Rightarrow> [(PyStr (split_first name), setitem df school_col (PyStr (split_first name)))]
            | Inl e \<Rightarrow> [])
       | _ \<Rightarrow> []) names)"

text \<open>The two messages of the loaders, as opposed to anything a tab shows.\<close>

fun is_file_message :: "event \<Rightarrow> bool" where
  "is_file_message (Env_file_missing _) = True"
| "is_file_message Growth_file_missing = True"
| "is_file_message _ = False"

text \<open>
  What a block must leave alone: both mappings, every object that was allocated before
  the block (so every raw table and every result of an earlier block), and hence the
  tables that the mappings denote. An address is new when it was not allocated before.
\<close>

definition preserved :: "store \<Rightarrow> store \<Rightarrow> bool" where
  "preserved st st' =
     (st_env_data st' = st_env_data st \<and> st_growth_data st' = st_growth_data st
      \<and> take (length (st_heap st)) (st_heap st') = st_heap st
      \<and> tables_of (st_heap st') (st_env_data st') = tables_of (st_heap st) (st_env_data st)
      \<and> tables_of (st_heap st') (st_growth_data st') = tables_of (st_heap st) (st_growth_data st))"

definition new_address :: "store \<Rightarrow> store \<Rightarrow> nat \<Rightarrow> bool" where
  "new_address st st' a = (length (st_heap st) \<le> a \<and> a < length (st_heap st'))"

text \<open>
  The invariant of the loops: the first \<open>n\<close> objects of the store and the two mappings are
  as before, and no object has been removed.
\<close>

definition keeps :: "nat \<Rightarrow> store \<Rightarrow> store \<Rightarrow> bool" where
  "keeps n st st' =
     (take n (st_heap st') = take n (st_heap st) \<and> length (st_heap st) \<le> length (st_heap st')
      \<and> st_env_data st' = st_env_data st \<and> st_growth_data st' = st_growth_data st)"

section \<open>Example data\<close>

text \<open>
  One mean function for the examples: the exact mean of the finite numbers of a column.
  Double arithmetic gives the same where the numbers, their sum and the quotient are
  doubles, as in the tables below (one number; small integers; a double taken twice).
\<close>

fun finite_value :: "pyfloat \<Rightarrow> rat" where
  "finite_value (Num x) = x"
| "finite_value _ = 0"

definition exact_mean :: "pyfloat list \<Rightarrow> pyfloat" where
  "exact_mean xs =
     Num (sum_list (map finite_value xs) / of_nat (length (filter (\<lambda>x. x \<noteq> NaN) xs)))"

text \<open>The doubles nearest to 9.2 and to 3.1.\<close>

definition double_9_2 :: rat where
  "double_9_2 = 2589569785738035 / 281474976710656"

definition double_3_1 :: rat where
  "double_3_1 = 3490199816641741 / 1125899906842624"

text \<open>A growth sheet that has only the fresh-weight column, and a one-column reading file.\<close>

definition sheet :: "pyfloat list \<Rightarrow> dataframe" where
  "sheet ws = \<lparr>columns = [weight_col], rws = map (\<lambda>w. [(weight_col, PyFloat w)]) ws\<rparr>"

definition readings :: "pyfloat list \<Rightarrow> dataframe" where
  "readings ts =
     \<lparr>columns = [temperature_col], rws = map (\<lambda>t. [(temperature_col, PyFloat t)]) ts\<rparr>"

text \<open>Two tables with different columns, as loaded (tagged with their identity).\<close>

definition mixed_tables :: "(pyval, dataframe) pydict" where
  "mixed_tables =
     [(PyStr songdo, setitem (readings [Num 20]) school_col (PyStr songdo)),
      (PyStr haneul, setitem (sheet [Num 9, Num 10]) school_col (PyStr haneul))]"

text \<open>
  Sheets whose means are those of the specification's example (5.0, 9.2, 3.1, 9.2 in this
  order); a workbook whose first sheet has a blank fresh-weight cell only; and one whose
  second sheet has.
\<close>

definition spec_example :: "(pyval, dataframe) pydict" where
  "spec_example =
     [(PyStr songdo, sheet [Num 4, Num 6]), (PyStr haneul, sheet [Num double_9_2]),
      (PyStr ara, sheet [Num double_3_1, Num double_3_1]),
      (PyStr dongsan, sheet [Num double_9_2, Num double_9_2])]"

definition blank_first :: "(pyval, dataframe) pydict" where
  "blank_first = [(PyStr songdo, sheet [NaN]), (PyStr haneul, sheet [Num 5])]"

definition blank_second :: "(pyval, dataframe) pydict" where
  "blank_second =
     [(PyStr songdo, sheet [Num 4, Num 6]), (PyStr haneul, sheet [NaN, NaN]),
      (PyStr ara, sheet [Num 6, Num 8])]"

text \<open>
  An environment file with all five columns; a mapping loaded when only the second
  school's file exists; a workbook sheet whose name is not a school of the design table.
\<close>

definition env_table :: dataframe where
  "env_table =
     \<lparr>columns = [time_col, temperature_col, humidity_col, ph_col, ec_col],
      rws = [[(time_col, PyStr (ascii ''09:00'')), (temperature_col, PyFloat (Num 20)),
              (humidity_col, PyFloat (Num 60)), (ph_col, PyFloat (Num 6)),
              (ec_col, PyFloat (Num 2))]]\<rparr>"

definition sheet1 :: pystr where "sheet1 = ascii ''Sheet1''"

definition partial_env :: "(pyval, dataframe) pydict" where
  "partial_env = [(PyStr haneul, setitem env_table school_col (PyStr haneul))]"

definition unknown_sheet :: "(pyval, dataframe) pydict" where
  "unknown_sheet = [(PyStr sheet1, setitem (sheet [Num 5]) school_col (PyStr sheet1))]"

text \<open>
  A data directory that holds the second school's file and the workbook, and the growth
  mapping of a workbook whose one sheet is named after that school.
\<close>

definition data_dir :: "pystr list option" where
  "data_dir = Some [haneul @ env_suffix, xlsx_name]"

definition haneul_growth :: "(pyval, dataframe) pydict" where
  "haneul_growth = [(PyStr haneul, setitem (sheet [Num 5]) school_col (PyStr haneul))]"

text \<open>
  A data directory from which the third school's file has been removed, and a reader for
  which the second school's file has a header and no row.
\<close>

definition one_removed :: "pystr list option" where
  "one_removed = Some [songdo @ env_suffix, haneul @ env_suffix, dongsan @ env_suffix]"

definition header_only_second :: "pystr \<Rightarrow> error + dataframe" where
  "header_only_second f =
     (if f = haneul @ env_suffix then Inr (readings []) else Inr (readings [Num 20]))"

text \<open>
  A growth mapping with two schools of the design table and a sheet that is not one.
\<close>

definition three_sheets :: "(pyval, dataframe) pydict" where
  "three_sheets =
     [(PyStr songdo, sheet [Num 5]), (PyStr haneul, sheet [Num 9, Num 10]),
      (PyStr sheet1, sheet [])]"

text \<open>
  The store before anything is loaded, and the store after the two loaders have run on
  the data directory above, with a workbook of one sheet of two plants.
\<close>

definition empty_store :: store where
  "empty_store = \<lparr>st_heap = [], st_env_data = [], st_growth_data = []\<rparr>"

definition loaded_store :: store where
  "loaded_store =
     load_growth_store [(haneul, sheet [Num 5, Num 7])]
       (fst (load_env_store hangul_compose data_dir (\<lambda>f. Inr env_table) csv_targets empty_store))"

section \<open>Resolver: theorems\<close>

lemma find_loop_first:
  "\<exists>e\<in>set entries. nfc e = a \<Longrightarrow>
   \<exists>pre f post. entries = pre @ f # post \<and> nfc f = a \<and> (\<forall>e\<in>set pre. nfc e \<noteq> a)
     \<and> find_loop nfc a entries = Some f"
proof (induction entries)
  case Nil
  then show ?case by simp
next
  case (Cons x xs)
  show ?case
  proof (cases "nfc x = a")
    case True
    then have "x # xs = [] @ x # xs \<and> nfc x = a \<and> (\<forall>e\<in>set []. nfc e \<noteq> a)
        \<and> find_loop nfc a (x # xs) = Some x"
      by (simp add: normalize_name_def)
    then show ?thesis by blast
  next
    case False
    with Cons.prems have "\<exists>e\<in>set xs. nfc e = a" by auto
    from Cons.IH [OF this] obtain pre f post where
      h: "xs = pre @ f # post" "nfc f = a" "\<forall>e\<in>set pre. nfc e \<noteq> a"
         "find_loop nfc a xs = Some f"
      by blast
    from h False have "x # xs = (x # pre) @ f # post \<and> nfc f = a
        \<and> (\<forall>e\<in>set (x # pre). nfc e \<noteq> a) \<and> find_loop nfc a (x # xs) = Some f"
      by (simp add: normalize_name_def)
    then show ?thesis by blast
  qed
qed

text \<open>
  C1. Two targets with the same NFC form get the same result from \<open>find_file_safe\<close>, in
  every directory; and when some entry of the directory has the target's NFC form, the
  result is the first such entry in enumeration order, whatever form the entry and the
  target are stored in.
\<close>

theorem find_file_safe_nfc_equivalent:
  assumes "nfc t1 = nfc t2"
  shows "find_file_safe nfc d t1 = find_file_safe nfc d t2
    \<and> ((\<exists>e\<in>set entries. nfc e = nfc t1) \<longrightarrow>
        (\<exists>pre f post. entries = pre @ f # post \<and> nfc f = nfc t1
           \<and> (\<forall>e\<in>set pre. nfc e \<noteq> nfc t1)
           \<and> find_file_safe nfc (Some entries) t1 = Inr (Some f)
           \<and> find_file_safe nfc (Some entries) t2 = Inr (Some f)))"
proof
  show "find_file_safe nfc d t1 = find_file_safe nfc d t2"
    using assms by (simp add: find_file_safe_def normalize_name_def)
next
  show "(\<exists>e\<in>set entries. nfc e = nfc t1) \<longrightarrow>
        (\<exists>pre f post. entries = pre @ f # post \<and> nfc f = nfc t1
           \<and> (\<forall>e\<in>set pre. nfc e \<noteq> nfc t1)
           \<and> find_file_safe nfc (Some entries) t1 = Inr (Some f)
           \<and> find_file_safe nfc (Some entries) t2 = Inr (Some f))"
  proof
    assume "\<exists>e\<in>set entries. nfc e = nfc t1"
    from find_loop_first [OF this] obtain pre f post where
      h: "entries = pre @ f # post" "nfc f = nfc t1" "\<forall>e\<in>set pre. nfc e \<noteq> nfc t1"
         "find_loop nfc (nfc t1) entries = Some f"
      by blast
    have "find_file_safe nfc (Some entries) t1 = Inr (Some f)"
      using h(4) by (simp add: find_file_safe_def normalize_name_def)
    moreover have "find_file_safe nfc (Some entries) t2 = Inr (Some f)"
      using h(4) assms by (simp add: find_file_safe_def normalize_name_def)
    ultimately show "\<exists>pre f post. entries = pre @ f # post \<and> nfc f = nfc t1
           \<and> (\<forall>e\<in>set pre. nfc e \<noteq> nfc t1)
           \<and> find_file_safe nfc (Some entries) t1 = Inr (Some f)
           \<and> find_file_safe nfc (Some entries) t2 = Inr (Some f)"
      using h(1,2,3) by blast
  qed
qed

theorem find_file_safe_nfc_equivalent_witness:
  "hangul_compose (songdo @ env_suffix) = hangul_compose (songdo_nfd @ env_suffix)
   \<and> songdo @ env_suffix \<noteq> songdo_nfd @ env_suffix
   \<and> find_file_safe hangul_compose (Some [haneul @ env_suffix, songdo_nfd @ env_suffix])
        (songdo @ env_suffix) = Inr (Some (songdo_nfd @ env_suffix))
   \<and> find_file_safe hangul_compose (Some [haneul @ env_suffix, songdo_nfd @ env_suffix])
        (songdo_nfd @ env_suffix) = Inr (Some (songdo_nfd @ env_suffix))"
proof -
  have h: "hangul_compose (songdo @ env_suffix) = hangul_compose (songdo_nfd @ env_suffix)"
    by (simp add: songdo_def songdo_nfd_def env_suffix_def ascii_def is_L_def is_V_def is_T_def
        syllable_def)
  show ?thesis
    using h find_file_safe_nfc_equivalent [of hangul_compose "songdo @ env_suffix"
        "songdo_nfd @ env_suffix" "Some [haneul @ env_suffix, songdo_nfd @ env_suffix]"
        "[haneul @ env_suffix, songdo_nfd @ env_suffix]", OF h]
    by (simp add: find_file_safe_def normalize_name_def songdo_def songdo_nfd_def haneul_def
        env_suffix_def ascii_def is_L_def is_V_def is_T_def syllable_def)
qed

section \<open>Overview: theorems\<close>

lemma overview_loop_eq:
  "overview_loop items acc n =
     (acc @ map (\<lambda>(school, df). \<lparr>ov_school = school, ov_ec = dict_get EC_MAP school,
                   ov_count = len_df df, ov_color = dict_get COLOR_MAP school\<rparr>) items,
      n + sum_list (map (\<lambda>(school, df). len_df df) items))"
  by (induction items arbitrary: acc n) (auto simp: Let_def)

lemma design_ec:
  "dict_get EC_MAP school =
     (if school = PyStr songdo then Some (Num 1)
      else if school = PyStr haneul then Some (Num 2)
      else if school = PyStr ara then Some (Num 4)
      else if school = PyStr dongsan then Some (Num 8)
      else None)"
  by (simp add: dict_get_def EC_MAP_def)

lemma design_colour:
  "dict_get COLOR_MAP school =
     (if school = PyStr songdo then Some (ascii ''#1f77b4'')
      else if school = PyStr haneul then Some (ascii ''#2ca02c'')
      else if school = PyStr ara then Some (ascii ''#ff7f0e'')
      else if school = PyStr dongsan then Some (ascii ''#d62728'')
      else None)"
  by (simp add: dict_get_def COLOR_MAP_def)

text \<open>
  C7. The overview has one row for each entry of the growth mapping, in its order. The row
  holds the identity, the target EC of the design table for it (1, 2, 4, 8 for the four
  schools, nothing for another identity), the number of rows of its table, and its colour
  of the design table. So with the distinct keys of a dictionary there is exactly one row
  per distinct identity. The total is the sum of the rows' record counts.
\<close>

theorem overview_rows_and_total:
  "fst (overview growth_data) =
     map (\<lambda>(school, df).
            \<lparr>ov_school = school,
             ov_ec = (if school = PyStr songdo then Some (Num 1)
                      else if school = PyStr haneul then Some (Num 2)
                      else if school = PyStr ara then Some (Num 4)
                      else if school = PyStr dongsan then Some (Num 8)
                      else None),
             ov_count = length (rws df),
             ov_color = (if school = PyStr songdo then Some (ascii ''#1f77b4'')
                         else if school = PyStr haneul then Some (ascii ''#2ca02c'')
                         else if school = PyStr ara then Some (ascii ''#ff7f0e'')
                         else if school = PyStr dongsan then Some (ascii ''#d62728'')
                         else None)\<rparr>) growth_data
   \<and> map ov_school (fst (overview growth_data)) = map fst growth_data
   \<and> snd (overview growth_data) = sum_list (map ov_count (fst (overview growth_data)))
   \<and> snd (overview growth_data) = (\<Sum>(school, df)\<leftarrow>growth_data. length (rws df))
   \<and> (distinct (map fst growth_data) \<longrightarrow>
        distinct (map ov_school (fst (overview growth_data)))
        \<and> length (fst (overview growth_data)) = card (fst ` set growth_data))"
proof -
  have r: "fst (overview growth_data) =
     map (\<lambda>(school, df).
            \<lparr>ov_school = school,
             ov_ec = (if school = PyStr songdo then Some (Num 1)
                      else if school = PyStr haneul then Some (Num 2)
                      else if school = PyStr ara then Some (Num 4)
                      else if school = PyStr dongsan then Some (Num 8)
                      else None),
             ov_count = length (rws df),
             ov_color = (if school = PyStr songdo then Some (ascii ''#1f77b4'')
                         else if school = PyStr haneul then Some (ascii ''#2ca02c'')
                         else if school = PyStr ara then Some (ascii ''#ff7f0e'')
                         else if school = PyStr dongsan then Some (ascii ''#d62728'')
                         else None)\<rparr>) growth_data"
    by (simp only: overview_def overview_loop_eq design_ec design_colour len_df_def fst_conv
        append_Nil)
  have k: "map ov_school (fst (overview growth_data)) = map fst growth_data"
    by (simp add: overview_def overview_loop_eq comp_def case_prod_unfold)
  have t: "snd (overview growth_data) = (\<Sum>(school, df)\<leftarrow>growth_data. length (rws df))"
    by (simp add: overview_def overview_loop_eq len_df_def)
  have c: "snd (overview growth_data) = sum_list (map ov_count (fst (overview growth_data)))"
    by (simp add: overview_def overview_loop_eq comp_def case_prod_unfold)
  have d: "distinct (map fst growth_data) \<longrightarrow>
        distinct (map ov_school (fst (overview growth_data)))
        \<and> length (fst (overview growth_data)) = card (fst ` set growth_data)"
  proof
    assume dk: "distinct (map fst growth_data)"
    have "length (fst (overview growth_data)) = length (map fst growth_data)"
      using arg_cong [OF k, of length] by simp
    also have "\<dots> = card (set (map fst growth_data))"
      using dk by (simp only: distinct_card)
    finally show "distinct (map ov_school (fst (overview growth_data)))
        \<and> length (fst (overview growth_data)) = card (fst ` set growth_data)"
      using dk k by simp
  qed
  from r k c t d show ?thesis by blast
qed

theorem overview_rows_and_total_witness:
  "distinct (map fst three_sheets)
   \<and> overview three_sheets =
       ([\<lparr>ov_school = PyStr songdo, ov_ec = Some (Num 1), ov_count = 1,
          ov_color = Some (ascii ''#1f77b4'')\<rparr>,
         \<lparr>ov_school = PyStr haneul, ov_ec = Some (Num 2), ov_count = 2,
          ov_color = Some (ascii ''#2ca02c'')\<rparr>,
         \<lparr>ov_school = PyStr sheet1, ov_ec = None, ov_count = 0, ov_color = None\<rparr>], 3)
   \<and> card (fst ` set three_sheets) = 3"
proof -
  have d: "distinct (map fst three_sheets)"
    by (simp add: three_sheets_def songdo_def haneul_def sheet1_def ascii_def)
  have n: "PyStr sheet1 \<noteq> PyStr songdo \<and> PyStr sheet1 \<noteq> PyStr haneul
      \<and> PyStr sheet1 \<noteq> PyStr ara \<and> PyStr sheet1 \<noteq> PyStr dongsan
      \<and> PyStr haneul \<noteq> PyStr songdo"
    by (simp add: songdo_def haneul_def ara_def dongsan_def sheet1_def ascii_def)
  have rows: "map (\<lambda>(school, df). length (rws df)) three_sheets = [1, 2, 0]"
    by (simp add: three_sheets_def sheet_def)
  show ?thesis
    using d n rows overview_rows_and_total [of three_sheets]
    by (simp add: three_sheets_def sheet_def prod_eq_iff)
qed

section \<open>Loader: theorems\<close>

lemmas name_defs = songdo_def haneul_def ara_def dongsan_def songdo_nfd_def env_suffix_def
  xlsx_name_def csv_targets_def ascii_def
lemmas nfc_defs = is_L_def is_V_def is_T_def syllable_def normalize_name_def find_file_safe_def

lemma map_of_dict_set_same: "map_of (dict_set r c v) c = Some v"
  by (induction r) auto

lemma cell_at_dict_set_same: "cell_at (dict_set r c v) c = v"
  by (simp add: cell_at_def map_of_dict_set_same)

lemma getitem_setitem_same:
  "getitem (setitem df c v) c = Inr (map (\<lambda>r. v) (rws df))"
  by (simp add: getitem_def setitem_def cell_at_dict_set_same comp_def)

lemma iloc0_const:
  "iloc0 (map (\<lambda>r. v) rs) = (if rs = [] then Inl IndexError else Inr v)"
  by (cases rs) (simp_all add: iloc0_def)

lemma dict_set_fresh: "k \<notin> fst ` set d \<Longrightarrow> dict_set d k v = d @ [(k, v)]"
  by (induction d) auto

lemma load_env_loop_missing:
  "find_file_safe nfc dir name = Inr None \<Longrightarrow>
   load_env_loop nfc dir rc (name # names) acc =
     (Env_file_missing name # fst (load_env_loop nfc dir rc names acc),
      snd (load_env_loop nfc dir rc names acc))"
  by (simp add: case_prod_unfold Let_def)

lemma load_env_loop_unreadable:
  "find_file_safe nfc dir name = Inr (Some f) \<Longrightarrow> rc f = Inl e \<Longrightarrow>
   load_env_loop nfc dir rc (name # names) acc = ([], Inl e)"
  by simp

lemma load_env_loop_empty_file:
  "find_file_safe nfc dir name = Inr (Some f) \<Longrightarrow> rc f = Inr df \<Longrightarrow> rws df = [] \<Longrightarrow>
   load_env_loop nfc dir rc (name # names) acc = ([], Inl IndexError)"
  by (simp add: getitem_setitem_same iloc0_def)

lemma load_env_loop_loaded:
  "find_file_safe nfc dir name = Inr (Some f) \<Longrightarrow> rc f = Inr df \<Longrightarrow> rws df \<noteq> [] \<Longrightarrow>
   load_env_loop nfc dir rc (name # names) acc =
     load_env_loop nfc dir rc names
       (dict_set acc (PyStr (split_first name)) (setitem df school_col (PyStr (split_first name))))"
  by (simp add: getitem_setitem_same iloc0_const)

lemma load_env_loop_raise:
  "find_file_safe nfc dir name = Inl e \<Longrightarrow>
   load_env_loop nfc dir rc (name # names) acc = ([], Inl e)"
  by simp

declare load_env_loop.simps(2) [simp del]

lemma loaded_sources_keys:
  "fst ` set (loaded_sources nfc dir rc names) \<subseteq> (\<lambda>n. PyStr (split_first n)) ` set names"
  by (induction names) (auto simp: loaded_sources_def split: sum.splits option.splits)

lemma load_env_loop_closed_form:
  assumes "\<forall>name\<in>set names. \<forall>f. find_file_safe nfc (Some es) name = Inr (Some f) \<longrightarrow>
             (\<exists>df. rc f = Inr df \<and> rws df \<noteq> [])"
    and "distinct (map split_first names)"
    and "\<forall>name\<in>set names. PyStr (split_first name) \<notin> fst ` set acc"
  shows "load_env_loop nfc (Some es) rc names acc =
           (map Env_file_missing (filter (\<lambda>n. find_file_safe nfc (Some es) n = Inr None) names),
            Inr (acc @ loaded_sources nfc (Some es) rc names))"
  using assms
proof (induction names arbitrary: acc)
  case Nil
  then show ?case by (simp add: loaded_sources_def)
next
  case (Cons name names)
  have ih: "\<And>acc'. \<forall>n\<in>set names. PyStr (split_first n) \<notin> fst ` set acc' \<Longrightarrow>
     load_env_loop nfc (Some es) rc names acc' =
       (map Env_file_missing (filter (\<lambda>n. find_file_safe nfc (Some es) n = Inr None) names),
        Inr (acc' @ loaded_sources nfc (Some es) rc names))"
    using Cons.IH Cons.prems(1,2) by simp
  obtain x where x: "find_file_safe nfc (Some es) name = Inr x"
    by (simp add: find_file_safe_def)
  show ?case
  proof (cases x)
    case None
    have "\<forall>n\<in>set names. PyStr (split_first n) \<notin> fst ` set acc"
      using Cons.prems(3) by simp
    from ih [OF this] show ?thesis
      using x None by (simp add: load_env_loop_missing loaded_sources_def)
  next
    case (Some f)
    with x Cons.prems(1) obtain df where df: "rc f = Inr df" "rws df \<noteq> []"
      by auto
    let ?k = "PyStr (split_first name)"
    let ?v = "setitem df school_col ?k"
    have fresh: "?k \<notin> fst ` set acc" using Cons.prems(3) by simp
    have "\<forall>n\<in>set names. PyStr (split_first n) \<notin> fst ` set (acc @ [(?k, ?v)])"
      using Cons.prems(2,3) by (auto simp: image_iff)
    from ih [OF this] show ?thesis
      using x Some df fresh
      by (simp add: load_env_loop_loaded dict_set_fresh loaded_sources_def)
  qed
qed

lemma load_env_loop_success_only_if:
  "load_env_loop nfc (Some es) rc names acc = (msgs, Inr env) \<Longrightarrow>
   \<forall>name\<in>set names. \<forall>f. find_file_safe nfc (Some es) name = Inr (Some f) \<longrightarrow>
     (\<exists>df. rc f = Inr df \<and> rws df \<noteq> [])"
proof (induction names arbitrary: acc msgs env)
  case Nil
  then show ?case by simp
next
  case (Cons name names)
  obtain x where x: "find_file_safe nfc (Some es) name = Inr x"
    by (simp add: find_file_safe_def)
  show ?case
  proof (cases x)
    case None
    with x Cons.prems have
      "load_env_loop nfc (Some es) rc names acc = (fst (load_env_loop nfc (Some es) rc names acc), Inr env)"
      by (auto simp: load_env_loop_missing prod_eq_iff)
    from Cons.IH [OF this] show ?thesis using x None by simp
  next
    case (Some f)
    show ?thesis
    proof (cases "rc f")
      case (Inl e)
      with x Some Cons.prems show ?thesis by (simp add: load_env_loop_unreadable)
    next
      case (Inr df)
      show ?thesis
      proof (cases "rws df = []")
        case True
        with x Some Inr Cons.prems show ?thesis by (simp add: load_env_loop_empty_file)
      next
        case False
        with x Some Inr Cons.prems have
          "load_env_loop nfc (Some es) rc names
             (dict_set acc (PyStr (split_first name)) (setitem df school_col (PyStr (split_first name))))
           = (msgs, Inr env)"
          by (simp add: load_env_loop_loaded)
        from Cons.IH [OF this] show ?thesis using x Some Inr False by simp
      qed
    qed
  qed
qed

lemma load_env_loop_index_error:
  assumes "\<forall>name\<in>set names. \<forall>f. find_file_safe nfc (Some es) name = Inr (Some f) \<longrightarrow>
             (\<exists>df. rc f = Inr df)"
    and "\<exists>name\<in>set names. \<exists>f df. find_file_safe nfc (Some es) name = Inr (Some f)
             \<and> rc f = Inr df \<and> rws df = []"
  shows "snd (load_env_loop nfc (Some es) rc names acc) = Inl IndexError"
  using assms
proof (induction names arbitrary: acc)
  case Nil
  then show ?case by simp
next
  case (Cons name names)
  obtain x where x: "find_file_safe nfc (Some es) name = Inr x"
    by (simp add: find_file_safe_def)
  show ?case
  proof (cases x)
    case None
    with x Cons.prems(2) have "\<exists>n\<in>set names. \<exists>f df. find_file_safe nfc (Some es) n = Inr (Some f)
             \<and> rc f = Inr df \<and> rws df = []" by auto
    with Cons.IH Cons.prems(1) have "snd (load_env_loop nfc (Some es) rc names acc) = Inl IndexError"
      by simp
    then show ?thesis using x None by (simp add: load_env_loop_missing)
  next
    case (Some f)
    with x Cons.prems(1) obtain df where df: "rc f = Inr df" by auto
    show ?thesis
    proof (cases "rws df = []")
      case True
      with x Some df show ?thesis by (simp add: load_env_loop_empty_file)
    next
      case False
      with x Some df Cons.prems(2) have "\<exists>n\<in>set names. \<exists>f df. find_file_safe nfc (Some es) n = Inr (Some f)
             \<and> rc f = Inr df \<and> rws df = []" by auto
      with Cons.IH Cons.prems(1) have "\<And>acc'. snd (load_env_loop nfc (Some es) rc names acc') = Inl IndexError"
        by simp
      then show ?thesis using x Some df False by (simp add: load_env_loop_loaded)
    qed
  qed
qed

lemma split_first_targets:
  "map split_first csv_targets = [songdo, haneul, ara, dongsan]"
  by (simp add: csv_targets_def split_first_def songdo_def haneul_def ara_def dongsan_def
      env_suffix_def)

lemma distinct_target_prefixes: "distinct (map split_first csv_targets)"
  by (simp add: split_first_targets songdo_def haneul_def ara_def dongsan_def)

lemma loaded_sources_keys_eq:
  assumes "\<forall>name\<in>set names. \<forall>f. find_file_safe nfc (Some es) name = Inr (Some f) \<longrightarrow>
             (\<exists>df. rc f = Inr df \<and> rws df \<noteq> [])"
  shows "dict_keys (loaded_sources nfc (Some es) rc names) =
     map (\<lambda>n. PyStr (split_first n))
       (filter (\<lambda>n. find_file_safe nfc (Some es) n \<noteq> Inr None) names)"
  using assms
proof (induction names)
  case Nil
  then show ?case by (simp add: loaded_sources_def dict_keys_def)
next
  case (Cons name names)
  then have ih: "dict_keys (loaded_sources nfc (Some es) rc names) =
     map (\<lambda>n. PyStr (split_first n))
       (filter (\<lambda>n. find_file_safe nfc (Some es) n \<noteq> Inr None) names)"
    by simp
  have split: "loaded_sources nfc (Some es) rc (name # names) =
      loaded_sources nfc (Some es) rc [name] @ loaded_sources nfc (Some es) rc names"
    by (simp add: loaded_sources_def)
  obtain x where x: "find_file_safe nfc (Some es) name = Inr x"
    by (simp add: find_file_safe_def)
  show ?case
  proof (cases x)
    case None
    with x ih split show ?thesis by (simp add: loaded_sources_def dict_keys_def)
  next
    case (Some f)
    with x Cons.prems obtain df where "rc f = Inr df" by auto
    with x Some ih split show ?thesis by (simp add: loaded_sources_def dict_keys_def)
  qed
qed

text \<open>
  C8, as the code has it. When every file that resolves parses to a table with at least
  one row,
  \<open>load_environment_data\<close> returns normally: it shows one message for each target that
  does not resolve, in order, and the mapping holds exactly the identities of the targets
  that resolve, each with its tagged table. With exactly one target unresolved the mapping
  has three entries (and there is that one message).
\<close>

theorem load_environment_data_tolerates_missing:
  assumes "\<forall>name\<in>set csv_targets. \<forall>f. find_file_safe nfc (Some es) name = Inr (Some f) \<longrightarrow>
             (\<exists>df. read_csv f = Inr df \<and> rws df \<noteq> [])"
  shows "load_environment_data nfc (Some es) read_csv =
           (map Env_file_missing
              (filter (\<lambda>n. find_file_safe nfc (Some es) n = Inr None) csv_targets),
            Inr (loaded_sources nfc (Some es) read_csv csv_targets))
     \<and> dict_keys (loaded_sources nfc (Some es) read_csv csv_targets) =
         map (\<lambda>n. PyStr (split_first n))
           (filter (\<lambda>n. find_file_safe nfc (Some es) n \<noteq> Inr None) csv_targets)
     \<and> (length (filter (\<lambda>n. find_file_safe nfc (Some es) n = Inr None) csv_targets) = 1 \<longrightarrow>
          length (loaded_sources nfc (Some es) read_csv csv_targets) = 3)"
proof -
  have a: "load_environment_data nfc (Some es) read_csv =
           (map Env_file_missing
              (filter (\<lambda>n. find_file_safe nfc (Some es) n = Inr None) csv_targets),
            Inr (loaded_sources nfc (Some es) read_csv csv_targets))"
    using load_env_loop_closed_form [OF assms distinct_target_prefixes, of "[]"]
    by (simp add: load_environment_data_def)
  have b: "dict_keys (loaded_sources nfc (Some es) read_csv csv_targets) =
         map (\<lambda>n. PyStr (split_first n))
           (filter (\<lambda>n. find_file_safe nfc (Some es) n \<noteq> Inr None) csv_targets)"
    by (rule loaded_sources_keys_eq [OF assms])
  have "length (filter (\<lambda>n. find_file_safe nfc (Some es) n = Inr None) csv_targets)
        + length (filter (\<lambda>n. find_file_safe nfc (Some es) n \<noteq> Inr None) csv_targets)
        = length csv_targets"
    by (rule sum_length_filter_compl)
  moreover have "length csv_targets = 4" by (simp add: csv_targets_def)
  moreover have "length (loaded_sources nfc (Some es) read_csv csv_targets)
       = length (filter (\<lambda>n. find_file_safe nfc (Some es) n \<noteq> Inr None) csv_targets)"
    using arg_cong [OF b, of length] by (simp add: dict_keys_def)
  ultimately have c: "length (filter (\<lambda>n. find_file_safe nfc (Some es) n = Inr None) csv_targets) = 1 \<longrightarrow>
          length (loaded_sources nfc (Some es) read_csv csv_targets) = 3"
    by simp
  from a b c show ?thesis by blast
qed

theorem load_environment_data_tolerates_missing_witness:
  "load_environment_data hangul_compose
     (Some [dongsan @ env_suffix, songdo_nfd @ env_suffix, haneul @ env_suffix])
     (\<lambda>f. Inr (readings [Num 20]))
   = ([Env_file_missing (ara @ env_suffix)],
      Inr (loaded_sources hangul_compose
             (Some [dongsan @ env_suffix, songdo_nfd @ env_suffix, haneul @ env_suffix])
             (\<lambda>f. Inr (readings [Num 20])) csv_targets))
   \<and> dict_keys (loaded_sources hangul_compose
             (Some [dongsan @ env_suffix, songdo_nfd @ env_suffix, haneul @ env_suffix])
             (\<lambda>f. Inr (readings [Num 20])) csv_targets)
       = [PyStr songdo, PyStr haneul, PyStr dongsan]
   \<and> length (loaded_sources hangul_compose
             (Some [dongsan @ env_suffix, songdo_nfd @ env_suffix, haneul @ env_suffix])
             (\<lambda>f. Inr (readings [Num 20])) csv_targets) = 3"
proof -
  let ?es = "Some [dongsan @ env_suffix, songdo_nfd @ env_suffix, haneul @ env_suffix]"
  let ?rc = "\<lambda>f::pystr. (Inr (readings [Num 20]) :: error + dataframe)"
  have p: "\<forall>name\<in>set csv_targets. \<forall>f. find_file_safe hangul_compose ?es name = Inr (Some f) \<longrightarrow>
             (\<exists>df. ?rc f = Inr df \<and> rws df \<noteq> [])"
    by (simp add: readings_def)
  have r1: "find_file_safe hangul_compose ?es (songdo @ env_suffix) = Inr (Some (songdo_nfd @ env_suffix))"
    by (simp add: name_defs nfc_defs)
  have r2: "find_file_safe hangul_compose ?es (haneul @ env_suffix) = Inr (Some (haneul @ env_suffix))"
    by (simp add: name_defs nfc_defs)
  have r3: "find_file_safe hangul_compose ?es (ara @ env_suffix) = Inr None"
    by (simp add: name_defs nfc_defs)
  have r4: "find_file_safe hangul_compose ?es (dongsan @ env_suffix) = Inr (Some (dongsan @ env_suffix))"
    by (simp add: name_defs nfc_defs)
  have s: "map split_first csv_targets = [songdo, haneul, ara, dongsan]"
    by (rule split_first_targets)
  show ?thesis
    using load_environment_data_tolerates_missing [OF p] r1 r2 r3 r4 s
    by (simp add: csv_targets_def)
qed

text \<open>
  C8 as stated fails without that condition: with the third school's file removed and the
  second school's file holding a header and no row, one target is unresolved and the three
  others resolve, yet the call raises IndexError and returns no mapping.
\<close>

theorem load_environment_data_header_only_counterexample:
  "find_file_safe hangul_compose one_removed (songdo @ env_suffix)
     = Inr (Some (songdo @ env_suffix))
   \<and> find_file_safe hangul_compose one_removed (haneul @ env_suffix)
       = Inr (Some (haneul @ env_suffix))
   \<and> find_file_safe hangul_compose one_removed (ara @ env_suffix) = Inr None
   \<and> find_file_safe hangul_compose one_removed (dongsan @ env_suffix)
       = Inr (Some (dongsan @ env_suffix))
   \<and> load_environment_data hangul_compose one_removed header_only_second
       = ([], Inl IndexError)"
proof -
  have r1: "find_file_safe hangul_compose one_removed (songdo @ env_suffix)
     = Inr (Some (songdo @ env_suffix))"
    by (simp add: one_removed_def name_defs nfc_defs)
  have r2: "find_file_safe hangul_compose one_removed (haneul @ env_suffix)
       = Inr (Some (haneul @ env_suffix))"
    by (simp add: one_removed_def name_defs nfc_defs)
  have r3: "find_file_safe hangul_compose one_removed (ara @ env_suffix) = Inr None"
    by (simp add: one_removed_def name_defs nfc_defs)
  have r4: "find_file_safe hangul_compose one_removed (dongsan @ env_suffix)
       = Inr (Some (dongsan @ env_suffix))"
    by (simp add: one_removed_def name_defs nfc_defs)
  have d: "songdo @ env_suffix \<noteq> haneul @ env_suffix"
    by (simp add: songdo_def haneul_def)
  have f1: "header_only_second (songdo @ env_suffix) = Inr (readings [Num 20])"
    using d by (simp add: header_only_second_def)
  have f2: "header_only_second (haneul @ env_suffix) = Inr (readings [])"
    by (simp add: header_only_second_def)
  have e: "rws (readings [Num 20]) \<noteq> [] \<and> rws (readings []) = []"
    by (simp add: readings_def)
  have "load_env_loop hangul_compose one_removed header_only_second
          [songdo @ env_suffix, haneul @ env_suffix, ara @ env_suffix, dongsan @ env_suffix] []
        = ([], Inl IndexError)"
    using r1 r2 f1 f2 e
    by (simp add: load_env_loop_loaded [where df = "readings [Num 20]"]
        load_env_loop_empty_file [where df = "readings []"])
  then show ?thesis
    using r1 r2 r3 r4 by (simp add: load_environment_data_def csv_targets_def)
qed

text \<open>
  C10. With an existing data directory, \<open>load_environment_data\<close> returns a mapping if and
  only if every file it resolves parses to a table with at least one row. When all resolved
  files parse and one of them has no row, the call raises IndexError (from \<open>iloc[0]\<close>)
  instead of omitting that source.
\<close>

theorem load_environment_data_total_iff:
  "((\<exists>msgs env. load_environment_data nfc (Some es) read_csv = (msgs, Inr env)) \<longleftrightarrow>
     (\<forall>name\<in>set csv_targets. \<forall>f. find_file_safe nfc (Some es) name = Inr (Some f) \<longrightarrow>
        (\<exists>df. read_csv f = Inr df \<and> rws df \<noteq> [])))
   \<and> ((\<forall>name\<in>set csv_targets. \<forall>f. find_file_safe nfc (Some es) name = Inr (Some f) \<longrightarrow>
          (\<exists>df. read_csv f = Inr df))
        \<and> (\<exists>name\<in>set csv_targets. \<exists>f df. find_file_safe nfc (Some es) name = Inr (Some f)
              \<and> read_csv f = Inr df \<and> rws df = [])
       \<longrightarrow> snd (load_environment_data nfc (Some es) read_csv) = Inl IndexError)"
proof (intro conjI iffI impI)
  assume "\<exists>msgs env. load_environment_data nfc (Some es) read_csv = (msgs, Inr env)"
  then obtain msgs env where "load_env_loop nfc (Some es) read_csv csv_targets [] = (msgs, Inr env)"
    by (auto simp: load_environment_data_def)
  from load_env_loop_success_only_if [OF this]
  show "\<forall>name\<in>set csv_targets. \<forall>f. find_file_safe nfc (Some es) name = Inr (Some f) \<longrightarrow>
        (\<exists>df. read_csv f = Inr df \<and> rws df \<noteq> [])" .
next
  assume p: "\<forall>name\<in>set csv_targets. \<forall>f. find_file_safe nfc (Some es) name = Inr (Some f) \<longrightarrow>
        (\<exists>df. read_csv f = Inr df \<and> rws df \<noteq> [])"
  show "\<exists>msgs env. load_environment_data nfc (Some es) read_csv = (msgs, Inr env)"
    using load_env_loop_closed_form [OF p distinct_target_prefixes, of "[]"]
    by (simp add: load_environment_data_def)
next
  assume "(\<forall>name\<in>set csv_targets. \<forall>f. find_file_safe nfc (Some es) name = Inr (Some f) \<longrightarrow>
          (\<exists>df. read_csv f = Inr df))
        \<and> (\<exists>name\<in>set csv_targets. \<exists>f df. find_file_safe nfc (Some es) name = Inr (Some f)
              \<and> read_csv f = Inr df \<and> rws df = [])"
  then have "snd (load_env_loop nfc (Some es) read_csv csv_targets []) = Inl IndexError"
    using load_env_loop_index_error by blast
  then show "snd (load_environment_data nfc (Some es) read_csv) = Inl IndexError"
    by (simp add: load_environment_data_def)
qed

theorem load_environment_data_total_iff_witness:
  "load_environment_data hangul_compose (Some [songdo @ env_suffix]) (\<lambda>f. Inr (readings []))
     = ([], Inl IndexError)
   \<and> \<not> (\<exists>msgs env. load_environment_data hangul_compose (Some [songdo @ env_suffix])
          (\<lambda>f. Inr (readings [])) = (msgs, Inr env))
   \<and> (\<exists>msgs env. load_environment_data hangul_compose (Some [songdo @ env_suffix])
          (\<lambda>f. Inr (readings [Num 20])) = (msgs, Inr env))"
proof -
  let ?es = "Some [songdo @ env_suffix]"
  have r1: "find_file_safe hangul_compose ?es (songdo @ env_suffix) = Inr (Some (songdo @ env_suffix))"
    by (simp add: name_defs nfc_defs)
  have a: "load_environment_data hangul_compose ?es (\<lambda>f. Inr (readings [])) = ([], Inl IndexError)"
    using r1 by (simp add: load_environment_data_def csv_targets_def load_env_loop_empty_file readings_def)
  have b: "\<not> (\<forall>name\<in>set csv_targets. \<forall>f. find_file_safe hangul_compose ?es name = Inr (Some f) \<longrightarrow>
        (\<exists>df. (Inr (readings []) :: error + dataframe) = Inr df \<and> rws df \<noteq> []))"
    using r1 by (auto simp: csv_targets_def readings_def)
  have c: "\<forall>name\<in>set csv_targets. \<forall>f. find_file_safe hangul_compose ?es name = Inr (Some f) \<longrightarrow>
        (\<exists>df. (Inr (readings [Num 20]) :: error + dataframe) = Inr df \<and> rws df \<noteq> [])"
    by (simp add: readings_def)
  show ?thesis
    using a b c load_environment_data_total_iff [of hangul_compose "[songdo @ env_suffix]" "\<lambda>f. Inr (readings [])"]
      load_environment_data_total_iff [of hangul_compose "[songdo @ env_suffix]" "\<lambda>f. Inr (readings [Num 20])"]
    by simp
qed

section \<open>Stopping on an empty dataset: theorems\<close>

lemma load_env_loop_messages:
  "list_all is_file_message (fst (load_env_loop nfc dir rc names acc))"
  by (induction names arbitrary: acc)
     (auto simp: load_env_loop.simps Let_def case_prod_unfold split: sum.splits option.splits)

lemma load_growth_data_messages:
  "list_all is_file_message (fst (load_growth_data nfc dir rx))"
  by (auto simp: load_growth_data_def split: sum.splits option.splits)

text \<open>
  C3. When both loads return and one of the two mappings is empty, the run ends at
  \<open>st.stop()\<close>: nothing is computed or shown after the loads, so all that the run has
  shown are the loaders' messages.
\<close>

theorem empty_dataset_stops:
  assumes "load_environment_data nfc dir read_csv = (m1, Inr env_data)"
    and "load_growth_data nfc dir read_excel = (m2, Inr growth_data)"
    and "env_data = [] \<or> growth_data = []"
  shows "render fmean env_data growth_data school_option = ([], Stopped)
     \<and> dashboard nfc fmean dir read_csv read_excel school_option = (m1 @ m2, Stopped)
     \<and> list_all is_file_message (m1 @ m2)"
proof -
  have r: "render fmean env_data growth_data school_option = ([], Stopped)"
    using assms(3) by (auto simp: render_def)
  have d: "dashboard nfc fmean dir read_csv read_excel school_option = (m1 @ m2, Stopped)"
    using assms(1,2) r by (simp add: dashboard_def)
  have "list_all is_file_message m1"
    using load_env_loop_messages [of nfc dir read_csv csv_targets "[]"] assms(1)
    by (simp add: load_environment_data_def)
  moreover have "list_all is_file_message m2"
    using load_growth_data_messages [of nfc dir read_excel] assms(2) by simp
  ultimately show ?thesis using r d by simp
qed

theorem empty_dataset_stops_witness:
  "load_environment_data hangul_compose (Some []) (\<lambda>f. Inl ReadError) =
     (map Env_file_missing csv_targets, Inr [])
   \<and> load_growth_data hangul_compose (Some []) (\<lambda>f. Inl ReadError) = ([Growth_file_missing], Inr [])
   \<and> dashboard hangul_compose exact_mean (Some []) (\<lambda>f. Inl ReadError) (\<lambda>f. Inl ReadError) all_option =
       (map Env_file_missing csv_targets @ [Growth_file_missing], Stopped)"
proof -
  have a: "load_environment_data hangul_compose (Some []) (\<lambda>f. Inl ReadError) =
     (map Env_file_missing csv_targets, Inr [])"
    by (simp add: load_environment_data_def csv_targets_def load_env_loop.simps find_file_safe_def)
  have b: "load_growth_data hangul_compose (Some []) (\<lambda>f. Inl ReadError) = ([Growth_file_missing], Inr [])"
    by (simp add: load_growth_data_def find_file_safe_def)
  show ?thesis
    using a b empty_dataset_stops [OF a b, of exact_mean all_option] by simp
qed

section \<open>Concatenation: theorems\<close>

lemmas col_defs = school_col_def temperature_col_def humidity_col_def ph_col_def ec_col_def
  time_col_def weight_col_def ascii_def

lemma map_of_reindex:
  "map_of (reindex cols r) c = (if c \<in> set cols then Some (cell_at r c) else None)"
  by (induction cols) (auto simp: reindex_def)

lemma cell_at_reindex:
  assumes "fst ` set r \<subseteq> set cols"
  shows "cell_at (reindex cols r) = cell_at r"
proof
  fix c
  show "cell_at (reindex cols r) c = cell_at r c"
  proof (cases "c \<in> set cols")
    case True
    then show ?thesis by (simp add: cell_at_def map_of_reindex)
  next
    case False
    with assms have "c \<notin> fst ` set r" by blast
    then have "map_of r c = None" by (simp add: map_of_eq_None_iff)
    with False show ?thesis by (simp add: cell_at_def map_of_reindex)
  qed
qed

lemma wf_df_row_keys:
  "wf_df df \<Longrightarrow> r \<in> set (rws df) \<Longrightarrow> fst ` set r = set (columns df)"
  by (auto simp: wf_df_def list_all_iff) (metis set_map image_eqI fst_conv)+

lemma map_fst_dict_set:
  "map fst (dict_set r c v) = (if c \<in> fst ` set r then map fst r else map fst r @ [c])"
proof (induction r)
  case Nil
  then show ?case by simp
next
  case (Cons p r)
  obtain k w where p: "p = (k, w)" by (cases p)
  show ?case
  proof (cases "k = c")
    case True
    with p show ?thesis by simp
  next
    case False
    with p Cons.IH show ?thesis by simp
  qed
qed

lemma wf_df_setitem:
  assumes "wf_df df"
  shows "wf_df (setitem df c v)"
proof -
  from assms have d: "distinct (columns df)"
    and r: "\<And>r. r \<in> set (rws df) \<Longrightarrow> map fst r = columns df"
    by (auto simp: wf_df_def list_all_iff)
  have "map fst (dict_set r c v) = columns (setitem df c v)" if "r \<in> set (rws df)" for r
  proof -
    have "map fst r = columns df" using that by (rule r)
    moreover from this have "fst ` set r = set (columns df)"
      by (metis set_map)
    ultimately show ?thesis by (simp add: map_fst_dict_set setitem_def)
  qed
  moreover have "distinct (columns (setitem df c v))"
    using d by (simp add: setitem_def)
  ultimately show ?thesis
    by (simp add: wf_df_def list_all_iff setitem_def)
qed

lemma pd_concat_rows:
  assumes "dfs \<noteq> []" and "list_all wf_df dfs"
  shows "\<exists>out. pd_concat dfs = Inr out
     \<and> map cell_at (rws out) = concat (map (\<lambda>df. map cell_at (rws df)) dfs)"
proof -
  let ?cols = "rev (remdups (rev (concat (map columns dfs))))"
  let ?out = "\<lparr>columns = ?cols, rws = map (reindex ?cols) (concat (map rws dfs))\<rparr>"
  have out: "pd_concat dfs = Inr ?out"
    using assms(1) by (simp add: pd_concat_def Let_def)
  have "\<And>r. r \<in> set (concat (map rws dfs)) \<Longrightarrow> cell_at (reindex ?cols r) = cell_at r"
  proof -
    fix r assume "r \<in> set (concat (map rws dfs))"
    then obtain df where df: "df \<in> set dfs" "r \<in> set (rws df)" by auto
    with assms(2) have "wf_df df" by (simp add: list_all_iff)
    then have "fst ` set r = set (columns df)" using df(2) by (rule wf_df_row_keys)
    with df(1) have "fst ` set r \<subseteq> set ?cols" by auto
    then show "cell_at (reindex ?cols r) = cell_at r" by (rule cell_at_reindex)
  qed
  then have "map cell_at (rws ?out) = map cell_at (concat (map rws dfs))"
    by (simp add: comp_def)
  also have "\<dots> = concat (map (\<lambda>df. map cell_at (rws df)) dfs)"
    by (simp add: map_concat comp_def)
  finally show ?thesis using out by blast
qed

text \<open>
  C6. Concatenating a mapping of tables (non-empty, as it is wherever the script
  concatenates, after the emptiness check of lines 107-108; each table
  well formed) gives one table whose rows, read as assignments of cells to columns, are
  exactly the rows of the input tables one table after the other: as many rows as the
  inputs have together, each input row once, none added, and each row with the
  \<open>school\<close> tag it had. The columns need not be the same in all tables.
\<close>

theorem concatenate_preserves_rows:
  assumes "d \<noteq> []" and "list_all wf_df (dict_values d)"
  shows "\<exists>out. concatenate d = Inr out
     \<and> length (rws out) = sum_list (map (\<lambda>(k, df). length (rws df)) d)
     \<and> map cell_at (rws out) = concat (map (\<lambda>(k, df). map cell_at (rws df)) d)
     \<and> mset (map cell_at (rws out)) = (\<Sum>(k, df)\<leftarrow>d. mset (map cell_at (rws df)))
     \<and> map (\<lambda>r. cell_at r school_col) (rws out)
         = concat (map (\<lambda>(k, df). map (\<lambda>r. cell_at r school_col) (rws df)) d)"
proof -
  from assms(1) have ne: "dict_values d \<noteq> []" by (simp add: dict_values_def)
  from pd_concat_rows [OF ne assms(2)] obtain out where
    out: "concatenate d = Inr out"
    and rows: "map cell_at (rws out) = concat (map (\<lambda>df. map cell_at (rws df)) (dict_values d))"
    by (auto simp: concatenate_def)
  have r1: "map cell_at (rws out) = concat (map (\<lambda>(k, df). map cell_at (rws df)) d)"
    using rows by (simp add: dict_values_def comp_def case_prod_unfold)
  have "length (map cell_at (rws out)) = length (concat (map (\<lambda>(k, df). map cell_at (rws df)) d))"
    using r1 by simp
  then have r2: "length (rws out) = sum_list (map (\<lambda>(k, df). length (rws df)) d)"
    by (simp add: length_concat comp_def case_prod_unfold)
  have r3: "mset (map cell_at (rws out)) = (\<Sum>(k, df)\<leftarrow>d. mset (map cell_at (rws df)))"
    using r1 by (simp add: mset_concat comp_def case_prod_unfold)
  have "map (\<lambda>f. f school_col) (map cell_at (rws out))
      = map (\<lambda>f. f school_col) (concat (map (\<lambda>(k, df). map cell_at (rws df)) d))"
    using r1 by simp
  then have r4: "map (\<lambda>r. cell_at r school_col) (rws out)
         = concat (map (\<lambda>(k, df). map (\<lambda>r. cell_at r school_col) (rws df)) d)"
    by (simp add: map_concat comp_def case_prod_unfold)
  from out r1 r2 r3 r4 show ?thesis by blast
qed

theorem concatenate_preserves_rows_witness:
  "mixed_tables \<noteq> [] \<and> list_all wf_df (dict_values mixed_tables)
   \<and> (\<exists>out. concatenate mixed_tables = Inr out \<and> length (rws out) = 3
         \<and> map (\<lambda>r. cell_at r school_col) (rws out) = [PyStr songdo, PyStr haneul, PyStr haneul])"
proof -
  have a: "mixed_tables \<noteq> []" by (simp add: mixed_tables_def)
  have b: "list_all wf_df (dict_values mixed_tables)"
    by (simp add: mixed_tables_def dict_values_def wf_df_def setitem_def readings_def sheet_def
        col_defs)
  have c: "map (\<lambda>(k, df). length (rws df)) mixed_tables = [1, 2]"
    by (simp add: mixed_tables_def setitem_def readings_def sheet_def)
  have d: "concat (map (\<lambda>(k, df). map (\<lambda>r. cell_at r school_col) (rws df)) mixed_tables)
      = [PyStr songdo, PyStr haneul, PyStr haneul]"
    by (simp add: mixed_tables_def setitem_def readings_def sheet_def cell_at_def col_defs)
  show ?thesis
    using a b c d concatenate_preserves_rows [OF a b] by auto
qed

section \<open>Optimal condition: theorems\<close>

lemma fgt_not_nan: "fgt a b \<Longrightarrow> a \<noteq> NaN \<and> b \<noteq> NaN"
  by (cases a; cases b) auto

lemma fgt_trans: "fgt a b \<Longrightarrow> fgt b c \<Longrightarrow> fgt a c"
  by (cases a; cases b; cases c) auto

lemma fgt_fge_trans: "fgt a b \<Longrightarrow> fge b c \<Longrightarrow> fgt a c"
  by (cases a; cases b; cases c) (auto simp: fge_def)

lemma max_loop_invariant:
  assumes "bv \<noteq> NaN"
    and "\<forall>(k', v')\<in>set pre. v' = NaN \<or> fgt bv v'"
    and "\<forall>(k', v')\<in>set mid. v' = NaN \<or> fge bv v'"
  shows "\<exists>pre' k v post. pre @ (b, bv) # mid @ items = pre' @ (k, v) # post
     \<and> v \<noteq> NaN \<and> max_loop (b, bv) items = k
     \<and> (\<forall>(k', v')\<in>set pre'. v' = NaN \<or> fgt v v')
     \<and> (\<forall>(k', v')\<in>set post. v' = NaN \<or> fge v v')"
  using assms
proof (induction items arbitrary: b bv pre mid)
  case Nil
  then show ?case by auto
next
  case (Cons item items)
  obtain k1 x where item: "item = (k1, x)" by (cases item)
  show ?case
  proof (cases "fgt x bv")
    case True
    then have x: "x \<noteq> NaN" using fgt_not_nan by blast
    have p: "\<forall>(k', v')\<in>set (pre @ (b, bv) # mid). v' = NaN \<or> fgt x v'"
    proof (clarify)
      fix k' v' assume m: "(k', v') \<in> set (pre @ (b, bv) # mid)" and n: "\<not> fgt x v'"
      from m consider "(k', v') \<in> set pre" | "v' = bv" | "(k', v') \<in> set mid" by auto
      then show "v' = NaN"
      proof cases
        case 1
        with Cons.prems(2) have "v' = NaN \<or> fgt bv v'" by auto
        with True n show ?thesis using fgt_trans by blast
      next
        case 2
        with True n show ?thesis by simp
      next
        case 3
        with Cons.prems(3) have "v' = NaN \<or> fge bv v'" by auto
        with True n show ?thesis using fgt_fge_trans by blast
      qed
    qed
    have "\<forall>(k', v')\<in>set ([]::('a \<times> pyfloat) list). v' = NaN \<or> fge x v'" by simp
    from Cons.IH [OF x p this, of k1]
    show ?thesis using item True by simp
  next
    case False
    have m: "\<forall>(k', v')\<in>set (mid @ [(k1, x)]). v' = NaN \<or> fge bv v'"
      using Cons.prems(1,3) False by (auto simp: fge_def)
    from Cons.IH [OF Cons.prems(1,2) m, of b]
    show ?thesis using item False by simp
  qed
qed

lemma weight_means_loop_distinct:
  assumes "weight_means_loop fmean items acc = Inr wm"
    and "distinct (map fst items)" and "fst ` set items \<inter> fst ` set acc = {}"
  shows "map (\<lambda>(k, v). (k, Inr v)) wm
       = map (\<lambda>(k, v). (k, Inr v)) acc
         @ map (\<lambda>(k, df). (k, column_mean fmean df weight_col)) items"
  using assms
proof (induction items arbitrary: acc)
  case Nil
  then show ?case by simp
next
  case (Cons item items)
  obtain k df where item: "item = (k, df)" by (cases item)
  with Cons.prems(1) obtain m where m: "column_mean fmean df weight_col = Inr m"
    and loop: "weight_means_loop fmean items (dict_set acc k m) = Inr wm"
    by (auto split: sum.splits)
  have fresh: "k \<notin> fst ` set acc" using Cons.prems(3) item by auto
  then have ds: "dict_set acc k m = acc @ [(k, m)]"
    by (rule dict_set_fresh)
  have "fst ` set items \<inter> fst ` set (acc @ [(k, m)]) = {}"
    using Cons.prems(2,3) item by auto
  with Cons.IH [of "acc @ [(k, m)]"] loop ds Cons.prems(2)
  show ?case using item m by simp
qed

lemma floats_PyFloat: "floats (map PyFloat ws) = ws"
  by (induction ws) auto

lemma column_mean_sheet:
  "column_mean fmean (sheet ws) weight_col =
     (if list_all (\<lambda>x. x = NaN) ws then Inr NaN else Inr (fmean ws))"
proof -
  have "map (\<lambda>r. cell_at r weight_col) (rws (sheet ws)) = map PyFloat ws"
    by (simp add: sheet_def cell_at_def comp_def)
  then have g: "getitem (sheet ws) weight_col = Inr (map PyFloat ws)"
    by (simp add: getitem_def sheet_def)
  have t: "\<not> list_ex is_text (map PyFloat ws)"
    by (simp add: list_ex_iff)
  show ?thesis
    using t by (simp add: column_mean_def g series_mean_def floats_PyFloat)
qed

lemmas school_defs = songdo_def haneul_def ara_def dongsan_def

text \<open>
  C2, as the code has it. Let the growth mapping have distinct keys, let every table have
  a fresh-weight column without text, and let the mean of the first table be a number.
  Then \<open>weight_means\<close> pairs each identity with the mean computed for its table, in the
  mapping's order, and \<open>optimal_school\<close> is the identity at the first position whose mean
  is maximal among the means that are numbers: every earlier mean is strictly smaller,
  no later mean is greater, and a source whose mean is NaN is passed over. In the
  specification's example the result is the second identity.
\<close>

theorem optimal_school_first_max:
  assumes "distinct (map fst growth_data)"
    and "weight_means fmean growth_data = Inr ((k0, v0) # rest)"
    and "v0 \<noteq> NaN"
  shows "map (\<lambda>(k, v). (k, Inr v)) ((k0, v0) # rest)
           = map (\<lambda>(k, df). (k, column_mean fmean df weight_col)) growth_data
    \<and> (\<exists>pre k v post. (k0, v0) # rest = pre @ (k, v) # post \<and> v \<noteq> NaN
          \<and> optimal_school fmean growth_data = Inr k
          \<and> (\<forall>(k', v')\<in>set pre. v' = NaN \<or> fgt v v')
          \<and> (\<forall>(k', v')\<in>set post. v' = NaN \<or> fge v v'))"
proof
  show "map (\<lambda>(k, v). (k, Inr v)) ((k0, v0) # rest)
           = map (\<lambda>(k, df). (k, column_mean fmean df weight_col)) growth_data"
    using weight_means_loop_distinct [of fmean growth_data "[]" "(k0, v0) # rest"] assms(1,2)
    by (simp add: weight_means_def)
next
  have "\<exists>pre' k v post. [] @ (k0, v0) # [] @ rest = pre' @ (k, v) # post
     \<and> v \<noteq> NaN \<and> max_loop (k0, v0) rest = k
     \<and> (\<forall>(k', v')\<in>set pre'. v' = NaN \<or> fgt v v')
     \<and> (\<forall>(k', v')\<in>set post. v' = NaN \<or> fge v v')"
    by (rule max_loop_invariant [OF assms(3)]) simp_all
  then show "\<exists>pre k v post. (k0, v0) # rest = pre @ (k, v) # post \<and> v \<noteq> NaN
          \<and> optimal_school fmean growth_data = Inr k
          \<and> (\<forall>(k', v')\<in>set pre. v' = NaN \<or> fgt v v')
          \<and> (\<forall>(k', v')\<in>set post. v' = NaN \<or> fge v v')"
    using assms(2) by (simp add: optimal_school_def py_max_def)
qed

lemma spec_example_means:
  "weight_means exact_mean spec_example
     = Inr [(PyStr songdo, Num 5), (PyStr haneul, Num double_9_2),
            (PyStr ara, Num double_3_1), (PyStr dongsan, Num double_9_2)]"
  by (simp add: spec_example_def weight_means_def column_mean_sheet exact_mean_def school_defs)

lemma blank_second_means:
  "weight_means exact_mean blank_second
     = Inr [(PyStr songdo, Num 5), (PyStr haneul, NaN), (PyStr ara, Num 7)]"
  by (simp add: blank_second_def weight_means_def column_mean_sheet exact_mean_def school_defs)

theorem optimal_school_first_max_witness:
  "distinct (map fst spec_example)
   \<and> weight_means exact_mean spec_example
       = Inr [(PyStr songdo, Num 5), (PyStr haneul, Num double_9_2),
              (PyStr ara, Num double_3_1), (PyStr dongsan, Num double_9_2)]
   \<and> optimal_school exact_mean spec_example = Inr (PyStr haneul)
   \<and> distinct (map fst blank_second)
   \<and> weight_means exact_mean blank_second
       = Inr [(PyStr songdo, Num 5), (PyStr haneul, NaN), (PyStr ara, Num 7)]
   \<and> optimal_school exact_mean blank_second = Inr (PyStr ara)"
proof -
  have a: "distinct (map fst spec_example)"
    by (simp add: spec_example_def school_defs)
  have b: "distinct (map fst blank_second)"
    by (simp add: blank_second_def school_defs)
  have n: "Num 5 \<noteq> NaN" by simp
  have e: "optimal_school exact_mean spec_example = Inr (PyStr haneul)"
    using spec_example_means
    by (simp add: optimal_school_def py_max_def double_9_2_def double_3_1_def)
  have f: "optimal_school exact_mean blank_second = Inr (PyStr ara)"
    using blank_second_means by (simp add: optimal_school_def py_max_def)
  show ?thesis
    using a b e f spec_example_means blank_second_means
      optimal_school_first_max [OF a spec_example_means n]
      optimal_school_first_max [OF b blank_second_means n]
    by simp
qed

text \<open>
  C2 as stated fails when the first mean is NaN: nothing is \<open>>\<close> NaN, so a first sheet with
  only blank fresh weights stays the candidate although another sheet has mean 5.
\<close>

theorem optimal_school_blank_sheet_counterexample:
  "weight_means exact_mean blank_first = Inr [(PyStr songdo, NaN), (PyStr haneul, Num 5)]
   \<and> optimal_school exact_mean blank_first = Inr (PyStr songdo)
   \<and> \<not> fge NaN (Num 5)"
proof -
  have c: "weight_means exact_mean blank_first
      = Inr [(PyStr songdo, NaN), (PyStr haneul, Num 5)]"
    by (simp add: blank_first_def weight_means_def column_mean_sheet exact_mean_def school_defs)
  then show ?thesis by (simp add: optimal_school_def py_max_def fge_def)
qed

section \<open>Two runs on a partly loaded dataset\<close>

lemma data_dir_env_loaded:
  "load_environment_data hangul_compose data_dir (\<lambda>f. Inr env_table)
     = ([Env_file_missing (songdo @ env_suffix), Env_file_missing (ara @ env_suffix),
         Env_file_missing (dongsan @ env_suffix)], Inr partial_env)"
proof -
  have r1: "find_file_safe hangul_compose data_dir (songdo @ env_suffix) = Inr None"
    by (simp add: data_dir_def name_defs nfc_defs)
  have r2: "find_file_safe hangul_compose data_dir (haneul @ env_suffix) = Inr (Some (haneul @ env_suffix))"
    by (simp add: data_dir_def name_defs nfc_defs)
  have r3: "find_file_safe hangul_compose data_dir (ara @ env_suffix) = Inr None"
    by (simp add: data_dir_def name_defs nfc_defs)
  have r4: "find_file_safe hangul_compose data_dir (dongsan @ env_suffix) = Inr None"
    by (simp add: data_dir_def name_defs nfc_defs)
  have s: "split_first (haneul @ env_suffix) = haneul"
    by (simp add: split_first_def haneul_def env_suffix_def)
  have ne: "rws env_table \<noteq> []" by (simp add: env_table_def)
  have "load_env_loop hangul_compose data_dir (\<lambda>f. Inr env_table)
       [songdo @ env_suffix, haneul @ env_suffix, ara @ env_suffix, dongsan @ env_suffix] []
     = ([Env_file_missing (songdo @ env_suffix), Env_file_missing (ara @ env_suffix),
         Env_file_missing (dongsan @ env_suffix)], Inr partial_env)"
    using r1 r2 r3 r4 s ne
    by (simp add: load_env_loop_missing load_env_loop_loaded [where df = env_table] partial_env_def)
  then show ?thesis by (simp add: load_environment_data_def csv_targets_def)
qed

lemma data_dir_workbook: "find_file_safe hangul_compose data_dir xlsx_name = Inr (Some xlsx_name)"
  by (simp add: data_dir_def name_defs nfc_defs)

lemma haneul_growth_loaded:
  "load_growth_data hangul_compose data_dir (\<lambda>f. Inr [(haneul, sheet [Num 5])])
     = ([], Inr haneul_growth)"
  using data_dir_workbook by (simp add: load_growth_data_def haneul_growth_def)

lemma unknown_sheet_loaded:
  "load_growth_data hangul_compose data_dir (\<lambda>f. Inr [(sheet1, sheet [Num 5])])
     = ([], Inr unknown_sheet)"
  using data_dir_workbook by (simp add: load_growth_data_def unknown_sheet_def)

lemma partial_env_concat:
  "concatenate partial_env = Inr (setitem env_table school_col (PyStr haneul))"
  by (simp add: concatenate_def partial_env_def dict_values_def pd_concat_def setitem_def
      env_table_def reindex_def cell_at_def col_defs)

lemma partial_env_means:
  "overall_mean fmean partial_env temperature_col = Inr (fmean [Num 20])"
  "overall_mean fmean partial_env humidity_col = Inr (fmean [Num 60])"
  using partial_env_concat
  by (simp_all add: overall_mean_def column_mean_def getitem_def setitem_def env_table_def
      series_mean_def cell_at_def col_defs)

lemma tagged_sheet_mean:
  "column_mean fmean (setitem (sheet [Num 5]) school_col (PyStr name)) weight_col
     = Inr (fmean [Num 5])"
  by (simp add: column_mean_def getitem_def setitem_def sheet_def series_mean_def cell_at_def
      col_defs)

lemma haneul_tab1:
  "tab1 fmean partial_env haneul_growth
     = ([Overview_table [\<lparr>ov_school = PyStr haneul, ov_ec = Some (Num 2), ov_count = 1,
                           ov_color = Some (ascii ''#2ca02c'')\<rparr>],
         Metrics 1 (fmean [Num 20]) (fmean [Num 60]) (Num 2) (PyStr haneul)], None)"
proof -
  have ec: "map_of EC_MAP (PyStr haneul) = Some (Num 2)"
    by (simp add: EC_MAP_def school_defs)
  have co: "map_of COLOR_MAP (PyStr haneul) = Some (ascii ''#2ca02c'')"
    by (simp add: COLOR_MAP_def school_defs)
  have o: "overview haneul_growth
       = ([\<lparr>ov_school = PyStr haneul, ov_ec = Some (Num 2), ov_count = 1,
             ov_color = Some (ascii ''#2ca02c'')\<rparr>], 1)"
    using ec co
    by (simp add: overview_def haneul_growth_def len_df_def setitem_def sheet_def dict_get_def)
  have b: "optimal_school fmean haneul_growth = Inr (PyStr haneul)"
    using tagged_sheet_mean [of fmean haneul]
    by (simp add: optimal_school_def weight_means_def haneul_growth_def py_max_def)
  have k: "dict_index EC_MAP (PyStr haneul) = Inr (Num 2)"
    using ec by (simp add: dict_index_def)
  show ?thesis using o partial_env_means b k by (simp add: tab1_def)
qed

text \<open>
  C4. With only the second school's file (and the workbook) in the data directory the
  loader returns a one-entry mapping and three messages. Selecting the first school in the
  sidebar then makes the averages loop look that school up in the mapping: the lookup
  raises KeyError, no averages table is built, and the run ends with that exception after
  the first tab.
\<close>

theorem avg_rows_unloaded_school_raises:
  "load_environment_data hangul_compose data_dir (\<lambda>f. Inr env_table)
     = ([Env_file_missing (songdo @ env_suffix), Env_file_missing (ara @ env_suffix),
         Env_file_missing (dongsan @ env_suffix)], Inr partial_env)
   \<and> selected_schools partial_env songdo = [PyStr songdo]
   \<and> avg_rows fmean partial_env (selected_schools partial_env songdo) = Inl KeyError
   \<and> dashboard hangul_compose fmean data_dir (\<lambda>f. Inr env_table)
        (\<lambda>f. Inr [(haneul, sheet [Num 5])]) songdo
       = ([Env_file_missing (songdo @ env_suffix), Env_file_missing (ara @ env_suffix),
           Env_file_missing (dongsan @ env_suffix),
           Overview_table [\<lparr>ov_school = PyStr haneul, ov_ec = Some (Num 2), ov_count = 1,
                             ov_color = Some (ascii ''#2ca02c'')\<rparr>],
           Metrics 1 (fmean [Num 20]) (fmean [Num 60]) (Num 2) (PyStr haneul)], Raised KeyError)"
proof -
  have s: "selected_schools partial_env songdo = [PyStr songdo]"
    by (simp add: selected_schools_def songdo_def all_option_def)
  have a: "avg_rows fmean partial_env [PyStr songdo] = Inl KeyError"
    by (simp add: avg_rows_def partial_env_def dict_index_def songdo_def haneul_def)
  have t2: "tab2 fmean partial_env [PyStr songdo] = ([], Some KeyError)"
    using a by (simp add: tab2_def)
  have ne: "partial_env \<noteq> [] \<and> haneul_growth \<noteq> []"
    by (simp add: partial_env_def haneul_growth_def)
  have r: "render fmean partial_env haneul_growth songdo
     = ([Overview_table [\<lparr>ov_school = PyStr haneul, ov_ec = Some (Num 2), ov_count = 1,
                           ov_color = Some (ascii ''#2ca02c'')\<rparr>],
         Metrics 1 (fmean [Num 20]) (fmean [Num 60]) (Num 2) (PyStr haneul)], Raised KeyError)"
    using ne s haneul_tab1 t2 by (simp add: render_def)
  have d: "dashboard hangul_compose fmean data_dir (\<lambda>f. Inr env_table)
            (\<lambda>f. Inr [(haneul, sheet [Num 5])]) songdo
     = ([Env_file_missing (songdo @ env_suffix), Env_file_missing (ara @ env_suffix),
         Env_file_missing (dongsan @ env_suffix),
         Overview_table [\<lparr>ov_school = PyStr haneul, ov_ec = Some (Num 2), ov_count = 1,
                           ov_color = Some (ascii ''#2ca02c'')\<rparr>],
         Metrics 1 (fmean [Num 20]) (fmean [Num 60]) (Num 2) (PyStr haneul)], Raised KeyError)"
    using data_dir_env_loaded haneul_growth_loaded r by (simp add: dashboard_def)
  show ?thesis using data_dir_env_loaded s a d by simp
qed

lemma no_design_entry: "dict_get EC_MAP (PyStr sheet1) = None"
  by (simp add: dict_get_def EC_MAP_def sheet1_def ascii_def school_defs)

lemma no_colour_entry: "dict_get COLOR_MAP (PyStr sheet1) = None"
  by (simp add: dict_get_def COLOR_MAP_def sheet1_def ascii_def school_defs)

text \<open>
  C5. For a workbook sheet whose name has no entry in \<open>EC_MAP\<close>, the overview row holds
  \<open>None\<close> as target EC (and as colour) and is shown, whereas the weight-by-source loop
  raises KeyError and so does the lookup of the optimal EC, which ends the run.
\<close>

theorem overview_defaults_missing_design_entry:
  "load_growth_data hangul_compose data_dir (\<lambda>f. Inr [(sheet1, sheet [Num 5])])
     = ([], Inr unknown_sheet)
   \<and> overview unknown_sheet
       = ([\<lparr>ov_school = PyStr sheet1, ov_ec = None, ov_count = 1, ov_color = None\<rparr>], 1)
   \<and> ec_weight fmean unknown_sheet = Inl KeyError
   \<and> dashboard hangul_compose fmean data_dir (\<lambda>f. Inr env_table)
        (\<lambda>f. Inr [(sheet1, sheet [Num 5])]) all_option
       = ([Env_file_missing (songdo @ env_suffix), Env_file_missing (ara @ env_suffix),
           Env_file_missing (dongsan @ env_suffix),
           Overview_table [\<lparr>ov_school = PyStr sheet1, ov_ec = None, ov_count = 1,
                             ov_color = None\<rparr>]], Raised KeyError)"
proof -
  have o: "overview unknown_sheet
       = ([\<lparr>ov_school = PyStr sheet1, ov_ec = None, ov_count = 1, ov_color = None\<rparr>], 1)"
    using no_design_entry no_colour_entry
    by (simp add: overview_def unknown_sheet_def len_df_def setitem_def sheet_def)
  have k: "dict_index EC_MAP (PyStr sheet1) = Inl KeyError"
    using no_design_entry by (simp add: dict_index_def dict_get_def)
  have e: "ec_weight fmean unknown_sheet = Inl KeyError"
    using k by (simp add: ec_weight_def unknown_sheet_def)
  have b: "optimal_school fmean unknown_sheet = Inr (PyStr sheet1)"
    using tagged_sheet_mean [of fmean sheet1]
    by (simp add: optimal_school_def weight_means_def unknown_sheet_def py_max_def)
  have t1: "tab1 fmean partial_env unknown_sheet
       = ([Overview_table [\<lparr>ov_school = PyStr sheet1, ov_ec = None, ov_count = 1,
                             ov_color = None\<rparr>]], Some KeyError)"
    using o partial_env_means b k by (simp add: tab1_def)
  have ne: "partial_env \<noteq> [] \<and> unknown_sheet \<noteq> []"
    by (simp add: partial_env_def unknown_sheet_def)
  have r: "render fmean partial_env unknown_sheet all_option
       = ([Overview_table [\<lparr>ov_school = PyStr sheet1, ov_ec = None, ov_count = 1,
                             ov_color = None\<rparr>]], Raised KeyError)"
    using ne t1 by (simp add: render_def)
  have d: "dashboard hangul_compose fmean data_dir (\<lambda>f. Inr env_table)
        (\<lambda>f. Inr [(sheet1, sheet [Num 5])]) all_option
       = ([Env_file_missing (songdo @ env_suffix), Env_file_missing (ara @ env_suffix),
           Env_file_missing (dongsan @ env_suffix),
           Overview_table [\<lparr>ov_school = PyStr sheet1, ov_ec = None, ov_count = 1,
                             ov_color = None\<rparr>]], Raised KeyError)"
    using data_dir_env_loaded unknown_sheet_loaded r by (simp add: dashboard_def)
  show ?thesis using unknown_sheet_loaded o e d by simp
qed

section \<open>The aggregation blocks over the store: theorems\<close>

subsection \<open>What the blocks leave alone\<close>

lemma keeps_refl: "keeps n st st"
  by (simp add: keeps_def)

lemma keeps_trans: "keeps n st st' \<Longrightarrow> keeps n st' st'' \<Longrightarrow> keeps n st st''"
  by (simp add: keeps_def)

lemma keeps_new_object:
  "n \<le> length (st_heap st) \<Longrightarrow> new_object st obj = (st', a) \<Longrightarrow>
   keeps n st st' \<and> a = length (st_heap st) \<and> length (st_heap st') = Suc (length (st_heap st))"
  by (auto simp: new_object_def keeps_def)

lemma keeps_overview_append:
  "n \<le> a \<Longrightarrow> keeps n st (overview_append st a r)
     \<and> length (st_heap (overview_append st a r)) = length (st_heap st)"
  by (simp add: overview_append_def keeps_def)

lemma keeps_avg_append:
  "n \<le> a \<Longrightarrow> keeps n st (avg_append st a r)
     \<and> length (st_heap (avg_append st a r)) = length (st_heap st)"
  by (simp add: avg_append_def keeps_def)

lemma keeps_ec_append:
  "n \<le> a \<Longrightarrow> keeps n st (ec_append st a r)
     \<and> length (st_heap (ec_append st a r)) = length (st_heap st)"
  by (simp add: ec_append_def keeps_def)

lemma overview_store_loop_keeps:
  "n \<le> a \<Longrightarrow> overview_store_loop st a items tp = (st', tp') \<Longrightarrow>
   keeps n st st' \<and> length (st_heap st') = length (st_heap st)"
proof (induction items arbitrary: st tp)
  case Nil
  then show ?case by (simp add: keeps_refl)
next
  case (Cons item items)
  obtain school df where item: "item = (school, df)" by (cases item)
  let ?st1 = "overview_append st a
      \<lparr>ov_school = school, ov_ec = dict_get EC_MAP school,
       ov_count = len_df (table_at (st_heap st) df), ov_color = dict_get COLOR_MAP school\<rparr>"
  from Cons.prems(2) item have
    "overview_store_loop ?st1 a items (tp + len_df (table_at (st_heap st) df)) = (st', tp')"
    by (simp add: Let_def)
  from Cons.IH [OF Cons.prems(1) this] keeps_overview_append [OF Cons.prems(1), of st]
  show ?case using keeps_trans by metis
qed

lemma averages_store_loop_keeps:
  "n \<le> a \<Longrightarrow> averages_store_loop fmean st a selected = (st', r) \<Longrightarrow>
   keeps n st st' \<and> length (st_heap st') = length (st_heap st)"
proof (induction selected arbitrary: st)
  case Nil
  then show ?case by (simp add: keeps_refl)
next
  case (Cons school schools)
  show ?case
  proof (cases "st' = st")
    case True
    then show ?thesis by (simp add: keeps_refl)
  next
    case False
    with Cons.prems(2) obtain row where
      "averages_store_loop fmean (avg_append st a row) a schools = (st', r)"
      by (auto split: sum.splits)
    from Cons.IH [OF Cons.prems(1) this] keeps_avg_append [OF Cons.prems(1), of st]
    show ?thesis using keeps_trans by metis
  qed
qed

lemma weight_store_loop_keeps:
  "n \<le> a \<Longrightarrow> weight_store_loop fmean st a items = (st', r) \<Longrightarrow>
   keeps n st st' \<and> length (st_heap st') = length (st_heap st)"
proof (induction items arbitrary: st)
  case Nil
  then show ?case by (simp add: keeps_refl)
next
  case (Cons item items)
  obtain school df where item: "item = (school, df)" by (cases item)
  show ?case
  proof (cases "st' = st")
    case True
    then show ?thesis by (simp add: keeps_refl)
  next
    case False
    with Cons.prems(2) item obtain row where
      "weight_store_loop fmean (ec_append st a row) a items = (st', r)"
      by (auto split: sum.splits)
    from Cons.IH [OF Cons.prems(1) this] keeps_ec_append [OF Cons.prems(1), of st]
    show ?thesis using keeps_trans by metis
  qed
qed

lemma table_at_keeps:
  assumes "take n h' = take n h" and "a < n" and "n \<le> length h" and "n \<le> length h'"
  shows "table_at h' a = table_at h a"
proof -
  have "h' ! a = take n h' ! a" using assms(2) by simp
  also have "\<dots> = h ! a" using assms(1,2) by simp
  finally show ?thesis using assms(2,3,4) by (simp add: table_at_def)
qed

lemma tables_of_keeps:
  assumes "take n h' = take n h" and "n \<le> length h" and "n \<le> length h'"
    and "list_all (\<lambda>(k, a). a < n) d"
  shows "tables_of h' d = tables_of h d"
  using assms(4)
  by (induction d) (auto simp: tables_of_def table_at_keeps [OF assms(1) _ assms(2,3)])

lemma keeps_preserved:
  assumes "refs_ok st" and "keeps (length (st_heap st)) st st'"
  shows "preserved st st'"
proof -
  let ?n = "length (st_heap st)"
  from assms(2) have t: "take ?n (st_heap st') = take ?n (st_heap st)"
    and l: "?n \<le> length (st_heap st')"
    and e: "st_env_data st' = st_env_data st" and g: "st_growth_data st' = st_growth_data st"
    by (simp_all add: keeps_def)
  from assms(1) have re: "list_all (\<lambda>(k, a). a < ?n) (st_env_data st)"
    and rg: "list_all (\<lambda>(k, a). a < ?n) (st_growth_data st)"
    by (simp_all add: refs_ok_def)
  have "tables_of (st_heap st') (st_env_data st) = tables_of (st_heap st) (st_env_data st)"
    by (rule tables_of_keeps [OF t _ l re]) simp
  moreover have "tables_of (st_heap st') (st_growth_data st) = tables_of (st_heap st) (st_growth_data st)"
    by (rule tables_of_keeps [OF t _ l rg]) simp
  ultimately show ?thesis using t e g by (simp add: preserved_def)
qed

lemma overview_block_keeps:
  assumes "overview_block st = (st', rows_at, df_at, tp)"
  shows "keeps (length (st_heap st)) st st' \<and> rows_at = length (st_heap st)
     \<and> df_at = Suc (length (st_heap st)) \<and> length (st_heap st') = Suc (Suc (length (st_heap st)))"
proof -
  let ?n = "length (st_heap st)"
  obtain st1 a1 where s1: "new_object st (OverviewRows []) = (st1, a1)" by fastforce
  obtain st2 tp2 where s2: "overview_store_loop st1 a1 (st_growth_data st1) 0 = (st2, tp2)"
    by fastforce
  obtain st3 a3 where s3:
    "new_object st2 (OverviewFrame (overview_rows_at (st_heap st2) a1)) = (st3, a3)"
    by fastforce
  from assms s1 s2 s3 have r: "st' = st3" "rows_at = a1" "df_at = a3" "tp = tp2"
    by (simp_all add: overview_block_def)
  from keeps_new_object [OF _ s1, of ?n] have k1: "keeps ?n st st1" "a1 = ?n"
    "length (st_heap st1) = Suc ?n" by simp_all
  from overview_store_loop_keeps [OF _ s2, of ?n] k1 have k2: "keeps ?n st1 st2"
    "length (st_heap st2) = Suc ?n" by simp_all
  from keeps_new_object [OF _ s3, of ?n] k2 have k3: "keeps ?n st2 st3" "a3 = Suc ?n"
    "length (st_heap st3) = Suc (Suc ?n)" by simp_all
  from k1 k2 k3 r show ?thesis using keeps_trans by metis
qed

lemma averages_block_keeps:
  assumes "averages_block fmean st selected = (st', r)"
  shows "keeps (length (st_heap st)) st st'
     \<and> (\<forall>rows_at df_at. r = Inr (rows_at, df_at) \<longrightarrow>
           rows_at = length (st_heap st) \<and> df_at = Suc (length (st_heap st))
           \<and> length (st_heap st') = Suc (Suc (length (st_heap st))))"
proof -
  let ?n = "length (st_heap st)"
  obtain st1 a1 where s1: "new_object st (AvgRows []) = (st1, a1)" by fastforce
  obtain st2 r2 where s2: "averages_store_loop fmean st1 a1 selected = (st2, r2)"
    by fastforce
  from keeps_new_object [OF _ s1, of ?n] have k1: "keeps ?n st st1" "a1 = ?n"
    "length (st_heap st1) = Suc ?n" by simp_all
  from averages_store_loop_keeps [OF _ s2, of ?n] k1 have k2: "keeps ?n st1 st2"
    "length (st_heap st2) = Suc ?n" by simp_all
  show ?thesis
  proof (cases r2)
    case (Some e)
    with assms s1 s2 have "st' = st2" "r = Inl e" by (simp_all add: averages_block_def)
    with k1 k2 show ?thesis using keeps_trans by auto
  next
    case None
    obtain st3 a3 where s3:
      "new_object st2 (AvgFrame (avg_rows_at (st_heap st2) a1)) = (st3, a3)" by fastforce
    from assms s1 s2 s3 None have r: "st' = st3" "r = Inr (a1, a3)"
      by (simp_all add: averages_block_def)
    from keeps_new_object [OF _ s3, of ?n] k2 have k3: "keeps ?n st2 st3" "a3 = Suc ?n"
      "length (st_heap st3) = Suc (Suc ?n)" by simp_all
    from k1 k2 k3 r show ?thesis using keeps_trans by (metis Inr_inject prod.inject)
  qed
qed

lemma weight_block_keeps:
  assumes "weight_block fmean st = (st', r)"
  shows "keeps (length (st_heap st)) st st'
     \<and> (\<forall>rows_at df_at. r = Inr (rows_at, df_at) \<longrightarrow>
           rows_at = length (st_heap st) \<and> df_at = Suc (length (st_heap st))
           \<and> length (st_heap st') = Suc (Suc (length (st_heap st))))"
proof -
  let ?n = "length (st_heap st)"
  obtain st1 a1 where s1: "new_object st (EcRows []) = (st1, a1)" by fastforce
  obtain st2 r2 where s2: "weight_store_loop fmean st1 a1 (st_growth_data st1) = (st2, r2)"
    by fastforce
  from keeps_new_object [OF _ s1, of ?n] have k1: "keeps ?n st st1" "a1 = ?n"
    "length (st_heap st1) = Suc ?n" by simp_all
  from weight_store_loop_keeps [OF _ s2, of ?n] k1 have k2: "keeps ?n st1 st2"
    "length (st_heap st2) = Suc ?n" by simp_all
  show ?thesis
  proof (cases r2)
    case (Some e)
    with assms s1 s2 have "st' = st2" "r = Inl e" by (simp_all add: weight_block_def)
    with k1 k2 show ?thesis using keeps_trans by auto
  next
    case None
    obtain st3 a3 where s3:
      "new_object st2 (EcFrame (ec_rows_at (st_heap st2) a1)) = (st3, a3)" by fastforce
    from assms s1 s2 s3 None have r: "st' = st3" "r = Inr (a1, a3)"
      by (simp_all add: weight_block_def)
    from keeps_new_object [OF _ s3, of ?n] k2 have k3: "keeps ?n st2 st3" "a3 = Suc ?n"
      "length (st_heap st3) = Suc (Suc ?n)" by simp_all
    from k1 k2 k3 r show ?thesis using keeps_trans by (metis Inr_inject prod.inject)
  qed
qed

lemma concat_env_block_keeps:
  assumes "concat_env_block st = (st', r)"
  shows "keeps (length (st_heap st)) st st'
     \<and> (\<forall>a. r = Inr a \<longrightarrow> a = length (st_heap st)
            \<and> length (st_heap st') = Suc (length (st_heap st)))"
  using assms
  by (auto simp: concat_env_block_def new_object_def keeps_def split: sum.splits)

lemma concat_growth_block_keeps:
  assumes "concat_growth_block st = (st', r)"
  shows "keeps (length (st_heap st)) st st'
     \<and> (\<forall>a. r = Inr a \<longrightarrow> a = length (st_heap st)
            \<and> length (st_heap st') = Suc (length (st_heap st)))"
  using assms
  by (auto simp: concat_growth_block_def new_object_def keeps_def split: sum.splits)

lemma table_at_update_other: "a \<noteq> r \<Longrightarrow> table_at (h[r := x]) a = table_at h a"
  by (simp add: table_at_def)

lemma tables_of_update_other:
  "list_all (\<lambda>(k, a). a \<noteq> r) d \<Longrightarrow> tables_of (h[r := x]) d = tables_of h d"
  by (induction d) (auto simp: tables_of_def table_at_update_other)

lemma table_at_append: "a < length h \<Longrightarrow> table_at (h @ t) a = table_at h a"
  by (simp add: table_at_def nth_append)

lemma tables_of_append:
  "list_all (\<lambda>(k, a). a < length h) d \<Longrightarrow> tables_of (h @ t) d = tables_of h d"
  by (induction d) (auto simp: tables_of_def table_at_append)

lemma tables_of_dict_set:
  "tables_of h (dict_set d k a) = dict_set (tables_of h d) k (table_at h a)"
  by (induction d) (auto simp: tables_of_def)

lemma dict_index_tables_of:
  "dict_index (tables_of h d) k =
     (case dict_index d k of Inl e \<Rightarrow> Inl e | Inr a \<Rightarrow> Inr (table_at h a))"
  by (induction d) (auto simp: tables_of_def dict_index_def)

lemma refs_differ:
  "list_all (\<lambda>(k, a). a < (n::nat)) d \<Longrightarrow> list_all (\<lambda>(k, a). a \<noteq> n) d"
proof (induction d)
  case Nil
  then show ?case by simp
next
  case (Cons p d)
  obtain k a where "p = (k, a)" by (cases p)
  with Cons show ?case by simp
qed

lemma tables_of_Cons: "tables_of h ((k, a) # d) = (k, table_at h a) # tables_of h d"
  by (simp add: tables_of_def)

lemma tables_of_Nil: "tables_of h [] = []"
  by (simp add: tables_of_def)

subsection \<open>The blocks compute what the functions on values compute\<close>

lemma overview_store_loop_rows:
  assumes "a < length (st_heap st)" and "list_all (\<lambda>(k, r). r \<noteq> a) items"
    and "overview_store_loop st a items tp = (st', tp')"
  shows "overview_loop (tables_of (st_heap st) items) (overview_rows_at (st_heap st) a) tp
           = (overview_rows_at (st_heap st') a, tp')"
  using assms
proof (induction items arbitrary: st tp)
  case Nil
  then show ?case by (simp add: tables_of_Nil)
next
  case (Cons item items)
  obtain school df where item: "item = (school, df)" by (cases item)
  let ?row = "\<lparr>ov_school = school, ov_ec = dict_get EC_MAP school,
       ov_count = len_df (table_at (st_heap st) df), ov_color = dict_get COLOR_MAP school\<rparr>"
  let ?st1 = "overview_append st a ?row"
  from Cons.prems(3) item have loop:
    "overview_store_loop ?st1 a items (tp + len_df (table_at (st_heap st) df)) = (st', tp')"
    by (simp add: Let_def)
  have len: "a < length (st_heap ?st1)" using Cons.prems(1) by (simp add: overview_append_def)
  have others: "list_all (\<lambda>(k, r). r \<noteq> a) items" using Cons.prems(2) by simp
  have t: "tables_of (st_heap ?st1) items = tables_of (st_heap st) items"
    using others by (simp add: overview_append_def tables_of_update_other)
  have r: "overview_rows_at (st_heap ?st1) a = overview_rows_at (st_heap st) a @ [?row]"
    using Cons.prems(1) by (simp add: overview_append_def overview_rows_at_def)
  from Cons.IH [OF len others loop] t r item
  show ?case by (simp add: tables_of_Cons Let_def)
qed

lemma overview_block_rows:
  assumes "refs_ok st" and "overview_block st = (st', rows_at, df_at, tp)"
  shows "overview (tables_of (st_heap st) (st_growth_data st))
           = (overview_rows_at (st_heap st') rows_at, tp)
     \<and> st_heap st' ! df_at = OverviewFrame (overview_rows_at (st_heap st') rows_at)"
proof -
  let ?n = "length (st_heap st)"
  let ?st1 = "st\<lparr>st_heap := st_heap st @ [OverviewRows []]\<rparr>"
  obtain st2 tp2 where s2: "overview_store_loop ?st1 ?n (st_growth_data st) 0 = (st2, tp2)"
    by fastforce
  from assms(2) s2 have r: "rows_at = ?n" "tp = tp2" "df_at = length (st_heap st2)"
    "st' = st2\<lparr>st_heap := st_heap st2 @ [OverviewFrame (overview_rows_at (st_heap st2) ?n)]\<rparr>"
    by (auto simp: overview_block_def new_object_def)
  from assms(1) have g: "list_all (\<lambda>(k, a). a < ?n) (st_growth_data st)"
    by (simp add: refs_ok_def)
  have l2: "length (st_heap st2) = Suc ?n"
    using overview_store_loop_keeps [OF _ s2, of ?n] by simp
  have "overview_loop (tables_of (st_heap ?st1) (st_growth_data st))
          (overview_rows_at (st_heap ?st1) ?n) 0 = (overview_rows_at (st_heap st2) ?n, tp2)"
    by (rule overview_store_loop_rows [OF _ _ s2]) (simp_all add: refs_differ [OF g])
  then have "overview (tables_of (st_heap st) (st_growth_data st))
      = (overview_rows_at (st_heap st2) ?n, tp2)"
    using g by (simp add: overview_def tables_of_append overview_rows_at_def)
  moreover have "overview_rows_at (st_heap st') ?n = overview_rows_at (st_heap st2) ?n"
    using r(4) l2 by (simp add: overview_rows_at_def nth_append)
  ultimately show ?thesis using r l2 by (simp add: nth_append)
qed

lemma averages_store_loop_rows:
  assumes "a < length (st_heap st)" and "list_all (\<lambda>(k, r). r \<noteq> a) (st_env_data st)"
    and "averages_store_loop fmean st a selected = (st', r)"
  shows "avg_rows_loop fmean (tables_of (st_heap st) (st_env_data st)) selected
            (avg_rows_at (st_heap st) a)
           = (case r of None \<Rightarrow> Inr (avg_rows_at (st_heap st') a) | Some e \<Rightarrow> Inl e)"
  using assms
proof (induction selected arbitrary: st)
  case Nil
  then show ?case by simp
next
  case (Cons school schools)
  have step: "\<And>row. a < length (st_heap (avg_append st a row))
      \<and> list_all (\<lambda>(k, r). r \<noteq> a) (st_env_data (avg_append st a row))
      \<and> tables_of (st_heap (avg_append st a row)) (st_env_data (avg_append st a row))
          = tables_of (st_heap st) (st_env_data st)
      \<and> avg_rows_at (st_heap (avg_append st a row)) a = avg_rows_at (st_heap st) a @ [row]"
    using Cons.prems(1,2) by (simp add: avg_append_def tables_of_update_other avg_rows_at_def)
  show ?case
  proof (cases "dict_index (st_env_data st) school")
    case (Inl e)
    with Cons.prems(3) show ?thesis by (auto simp: dict_index_tables_of)
  next
    case (Inr df)
    note df = Inr
    show ?thesis
    proof (cases "column_mean fmean (table_at (st_heap st) df) temperature_col")
      case (Inl e)
      with df Cons.prems(3) show ?thesis by (auto simp: dict_index_tables_of)
    next
      case (Inr t)
      note t = Inr
      show ?thesis
      proof (cases "column_mean fmean (table_at (st_heap st) df) humidity_col")
        case (Inl e)
        with df t Cons.prems(3) show ?thesis by (auto simp: dict_index_tables_of)
      next
        case (Inr h)
        note h = Inr
        show ?thesis
        proof (cases "column_mean fmean (table_at (st_heap st) df) ph_col")
          case (Inl e)
          with df t h Cons.prems(3) show ?thesis by (auto simp: dict_index_tables_of)
        next
          case (Inr p)
          note p = Inr
          show ?thesis
          proof (cases "column_mean fmean (table_at (st_heap st) df) ec_col")
            case (Inl e)
            with df t h p Cons.prems(3) show ?thesis by (auto simp: dict_index_tables_of)
          next
            case (Inr c)
            note c = Inr
            show ?thesis
            proof (cases "dict_index EC_MAP school")
              case (Inl e)
              with df t h p c Cons.prems(3) show ?thesis by (auto simp: dict_index_tables_of)
            next
              case (Inr target)
              let ?row = "\<lparr>av_school = school, av_temperature = t, av_humidity = h,
                  av_ph = p, av_ec = c, av_target = target\<rparr>"
              from df t h p c Inr Cons.prems(3) have loop:
                "averages_store_loop fmean (avg_append st a ?row) a schools = (st', r)"
                by simp
              from step [of ?row] Cons.IH [OF _ _ loop] df t h p c Inr
              show ?thesis by (simp add: dict_index_tables_of)
            qed
          qed
        qed
      qed
    qed
  qed
qed

lemma weight_store_loop_rows:
  assumes "a < length (st_heap st)" and "list_all (\<lambda>(k, r). r \<noteq> a) items"
    and "weight_store_loop fmean st a items = (st', r)"
  shows "ec_weight_loop fmean (tables_of (st_heap st) items) (ec_rows_at (st_heap st) a)
           = (case r of None \<Rightarrow> Inr (ec_rows_at (st_heap st') a) | Some e \<Rightarrow> Inl e)"
  using assms
proof (induction items arbitrary: st)
  case Nil
  then show ?case by (simp add: tables_of_Nil)
next
  case (Cons item items)
  obtain school df where item: "item = (school, df)" by (cases item)
  have others: "list_all (\<lambda>(k, r). r \<noteq> a) items" using Cons.prems(2) by simp
  have step: "\<And>row. a < length (st_heap (ec_append st a row))
      \<and> tables_of (st_heap (ec_append st a row)) items = tables_of (st_heap st) items
      \<and> ec_rows_at (st_heap (ec_append st a row)) a = ec_rows_at (st_heap st) a @ [row]"
    using Cons.prems(1) others by (simp add: ec_append_def tables_of_update_other ec_rows_at_def)
  show ?case
  proof (cases "dict_index EC_MAP school")
    case (Inl e)
    with item Cons.prems(3) show ?thesis by (auto simp: tables_of_Cons)
  next
    case (Inr target)
    note target = Inr
    show ?thesis
    proof (cases "column_mean fmean (table_at (st_heap st) df) weight_col")
      case (Inl e)
      with item target Cons.prems(3) show ?thesis by (auto simp: tables_of_Cons)
    next
      case (Inr m)
      let ?row = "\<lparr>ew_school = school, ew_ec = target, ew_weight = m\<rparr>"
      from item target Inr Cons.prems(3) have loop:
        "weight_store_loop fmean (ec_append st a ?row) a items = (st', r)"
        by simp
      from step [of ?row] Cons.IH [OF _ others loop] item target Inr
      show ?thesis by (simp add: tables_of_Cons)
    qed
  qed
qed

lemma averages_block_rows:
  assumes "refs_ok st" and "averages_block fmean st selected = (st', r)"
  shows "avg_rows fmean (tables_of (st_heap st) (st_env_data st)) selected
           = (case r of Inl e \<Rightarrow> Inl e
              | Inr (rows_at, df_at) \<Rightarrow> Inr (avg_rows_at (st_heap st') rows_at))"
proof -
  let ?n = "length (st_heap st)"
  let ?st1 = "st\<lparr>st_heap := st_heap st @ [AvgRows []]\<rparr>"
  obtain st2 r2 where s2: "averages_store_loop fmean ?st1 ?n selected = (st2, r2)"
    by fastforce
  from assms(1) have e: "list_all (\<lambda>(k, a). a < ?n) (st_env_data st)"
    by (simp add: refs_ok_def)
  have l2: "length (st_heap st2) = Suc ?n"
    using averages_store_loop_keeps [OF _ s2, of ?n] by simp
  have "avg_rows_loop fmean (tables_of (st_heap ?st1) (st_env_data ?st1)) selected
          (avg_rows_at (st_heap ?st1) ?n)
        = (case r2 of None \<Rightarrow> Inr (avg_rows_at (st_heap st2) ?n) | Some e \<Rightarrow> Inl e)"
    by (rule averages_store_loop_rows [OF _ _ s2]) (simp_all add: refs_differ [OF e])
  then have v: "avg_rows fmean (tables_of (st_heap st) (st_env_data st)) selected
        = (case r2 of None \<Rightarrow> Inr (avg_rows_at (st_heap st2) ?n) | Some e \<Rightarrow> Inl e)"
    using e by (simp add: avg_rows_def tables_of_append avg_rows_at_def)
  show ?thesis
  proof (cases r2)
    case (Some e)
    with assms(2) s2 have "r = Inl e" by (auto simp: averages_block_def new_object_def)
    with v Some show ?thesis by simp
  next
    case None
    with assms(2) s2 have "r = Inr (?n, length (st_heap st2))"
      "st' = st2\<lparr>st_heap := st_heap st2 @ [AvgFrame (avg_rows_at (st_heap st2) ?n)]\<rparr>"
      by (auto simp: averages_block_def new_object_def)
    with v None l2 show ?thesis by (simp add: avg_rows_at_def nth_append)
  qed
qed

lemma weight_block_rows:
  assumes "refs_ok st" and "weight_block fmean st = (st', r)"
  shows "ec_weight fmean (tables_of (st_heap st) (st_growth_data st))
           = (case r of Inl e \<Rightarrow> Inl e
              | Inr (rows_at, df_at) \<Rightarrow> Inr (ec_rows_at (st_heap st') rows_at))"
proof -
  let ?n = "length (st_heap st)"
  let ?st1 = "st\<lparr>st_heap := st_heap st @ [EcRows []]\<rparr>"
  obtain st2 r2 where s2: "weight_store_loop fmean ?st1 ?n (st_growth_data st) = (st2, r2)"
    by fastforce
  from assms(1) have g: "list_all (\<lambda>(k, a). a < ?n) (st_growth_data st)"
    by (simp add: refs_ok_def)
  have l2: "length (st_heap st2) = Suc ?n"
    using weight_store_loop_keeps [OF _ s2, of ?n] by simp
  have "ec_weight_loop fmean (tables_of (st_heap ?st1) (st_growth_data st))
          (ec_rows_at (st_heap ?st1) ?n)
        = (case r2 of None \<Rightarrow> Inr (ec_rows_at (st_heap st2) ?n) | Some e \<Rightarrow> Inl e)"
    by (rule weight_store_loop_rows [OF _ _ s2]) (simp_all add: refs_differ [OF g])
  then have v: "ec_weight fmean (tables_of (st_heap st) (st_growth_data st))
        = (case r2 of None \<Rightarrow> Inr (ec_rows_at (st_heap st2) ?n) | Some e \<Rightarrow> Inl e)"
    using g by (simp add: ec_weight_def tables_of_append ec_rows_at_def)
  show ?thesis
  proof (cases r2)
    case (Some e)
    with assms(2) s2 have "r = Inl e" by (auto simp: weight_block_def new_object_def)
    with v Some show ?thesis by simp
  next
    case None
    with assms(2) s2 have "r = Inr (?n, length (st_heap st2))"
      "st' = st2\<lparr>st_heap := st_heap st2 @ [EcFrame (ec_rows_at (st_heap st2) ?n)]\<rparr>"
      by (auto simp: weight_block_def new_object_def)
    with v None l2 show ?thesis by (simp add: ec_rows_at_def nth_append)
  qed
qed

subsection \<open>The loaders over the store give the mappings of the loaders on values\<close>

lemma tag_new_table:
  "table_setitem (fst (new_object st (Table df0))) (snd (new_object st (Table df0))) c v
     = st\<lparr>st_heap := st_heap st @ [Table (setitem df0 c v)]\<rparr>"
  by (simp add: new_object_def table_setitem_def table_at_def)

lemma refs_Suc:
  "list_all (\<lambda>(k, a). a < (n::nat)) d \<Longrightarrow> list_all (\<lambda>(k, a). a < Suc n) d"
proof (induction d)
  case Nil
  then show ?case by simp
next
  case (Cons p d)
  obtain k a where "p = (k, a)" by (cases p)
  with Cons show ?case by simp
qed

lemma refs_dict_set:
  "list_all (\<lambda>(k, a). a < (n::nat)) d \<Longrightarrow> list_all (\<lambda>(k, a). a < Suc n) (dict_set d k0 n)"
proof (induction d)
  case Nil
  then show ?case by simp
next
  case (Cons p d)
  obtain k a where "p = (k, a)" by (cases p)
  with Cons refs_Suc [of n d] show ?case by simp
qed

lemma load_growth_store_refines:
  assumes "refs_ok st"
  shows "refs_ok (load_growth_store sheets st)
     \<and> st_env_data (load_growth_store sheets st) = st_env_data st
     \<and> tables_of (st_heap (load_growth_store sheets st)) (st_env_data st)
         = tables_of (st_heap st) (st_env_data st)
     \<and> tables_of (st_heap (load_growth_store sheets st))
          (st_growth_data (load_growth_store sheets st))
         = load_growth_loop sheets (tables_of (st_heap st) (st_growth_data st))"
  using assms
proof (induction sheets arbitrary: st)
  case Nil
  then show ?case by simp
next
  case (Cons p sheets)
  obtain sheet_name df0 where p: "p = (sheet_name, df0)" by (cases p)
  let ?n = "length (st_heap st)"
  let ?t = "setitem df0 school_col (PyStr sheet_name)"
  let ?st3 = "st\<lparr>st_heap := st_heap st @ [Table ?t],
                  st_growth_data := dict_set (st_growth_data st) (PyStr sheet_name) ?n\<rparr>"
  from Cons.prems have e: "list_all (\<lambda>(k, a). a < ?n) (st_env_data st)"
    and g: "list_all (\<lambda>(k, a). a < ?n) (st_growth_data st)"
    by (simp_all add: refs_ok_def)
  have step: "load_growth_store (p # sheets) st = load_growth_store sheets ?st3"
    using p tag_new_table [of st df0 school_col "PyStr sheet_name"]
    by (simp add: case_prod_unfold Let_def new_object_def)
  have g3: "list_all (\<lambda>(k, a). a < Suc ?n) (dict_set (st_growth_data st) (PyStr sheet_name) ?n)"
    using g by (rule refs_dict_set)
  have ok3: "refs_ok ?st3"
    using refs_Suc [OF e] g3 by (simp add: refs_ok_def)
  have t3: "tables_of (st_heap ?st3) (st_growth_data ?st3)
      = dict_set (tables_of (st_heap st) (st_growth_data st)) (PyStr sheet_name) ?t"
    using g by (simp add: tables_of_dict_set tables_of_append table_at_def)
  have e3: "tables_of (st_heap ?st3) (st_env_data st) = tables_of (st_heap st) (st_env_data st)"
    using e by (simp add: tables_of_append)
  from Cons.IH [OF ok3] step t3 e3 p show ?case by (simp add: Let_def)
qed

lemma load_env_store_refines:
  assumes "refs_ok st" and "load_env_store nfc dir rc names st = (st', msgs, r)"
  shows "load_env_loop nfc dir rc names (tables_of (st_heap st) (st_env_data st))
           = (msgs, case r of None \<Rightarrow> Inr (tables_of (st_heap st') (st_env_data st'))
                     | Some e \<Rightarrow> Inl e)
     \<and> refs_ok st' \<and> st_growth_data st' = st_growth_data st
     \<and> tables_of (st_heap st') (st_growth_data st) = tables_of (st_heap st) (st_growth_data st)"
  using assms
proof (induction names arbitrary: st st' msgs r)
  case Nil
  then show ?case by (auto simp: load_env_loop.simps cong: option.case_cong)
next
  case (Cons name names)
  let ?n = "length (st_heap st)"
  from Cons.prems(1) have e: "list_all (\<lambda>(k, a). a < ?n) (st_env_data st)"
    and g: "list_all (\<lambda>(k, a). a < ?n) (st_growth_data st)"
    by (simp_all add: refs_ok_def)
  show ?case
  proof (cases "find_file_safe nfc dir name")
    case (Inl err)
    with Cons.prems show ?thesis by (auto simp: load_env_loop.simps cong: option.case_cong)
  next
    case (Inr found)
    note found = Inr
    show ?thesis
    proof (cases found)
      case None
      obtain st1 msgs1 r1 where rec: "load_env_store nfc dir rc names st = (st1, msgs1, r1)"
        by (cases "load_env_store nfc dir rc names st") auto
      with found None Cons.prems(2) have eq: "st' = st1" "msgs = Env_file_missing name # msgs1"
        "r = r1" by simp_all
      from Cons.IH [OF Cons.prems(1) rec] found None eq
      show ?thesis by (simp add: load_env_loop.simps cong: option.case_cong)
    next
      case (Some f)
      show ?thesis
      proof (cases "rc f")
        case (Inl err)
        with found Some Cons.prems show ?thesis by (auto simp: load_env_loop.simps cong: option.case_cong)
      next
        case (Inr df0)
        let ?t = "setitem df0 school_col (PyStr (split_first name))"
        let ?st2 = "st\<lparr>st_heap := st_heap st @ [Table ?t]\<rparr>"
        have tag: "table_setitem (fst (new_object st (Table df0))) (snd (new_object st (Table df0)))
            school_col (PyStr (split_first name)) = ?st2"
          by (rule tag_new_table)
        have at: "table_at (st_heap ?st2) ?n = ?t" by (simp add: table_at_def)
        have ok2: "refs_ok ?st2" using refs_Suc [OF e] refs_Suc [OF g] by (simp add: refs_ok_def)
        have g2: "tables_of (st_heap ?st2) (st_growth_data st)
            = tables_of (st_heap st) (st_growth_data st)"
          using g by (simp add: tables_of_append)
        show ?thesis
        proof (cases "getitem ?t school_col")
          case (Inl err)
          with found Some Inr Cons.prems(2) tag at have "st' = ?st2" "msgs = []" "r = Some err"
            by (simp_all add: new_object_def Let_def)
          with found Some Inr Inl ok2 g2 show ?thesis by (simp add: load_env_loop.simps cong: option.case_cong)
        next
          case (Inr s)
          note s = Inr
          show ?thesis
          proof (cases "iloc0 s")
            case (Inl err)
            with found Some \<open>rc f = Inr df0\<close> s Cons.prems(2) tag at
            have "st' = ?st2" "msgs = []" "r = Some err"
              by (simp_all add: new_object_def Let_def)
            with found Some \<open>rc f = Inr df0\<close> s Inl ok2 g2 show ?thesis
              by (simp add: load_env_loop.simps cong: option.case_cong)
          next
            case (Inr key)
            let ?st3 = "?st2\<lparr>st_env_data := dict_set (st_env_data st) key ?n\<rparr>"
            from found Some \<open>rc f = Inr df0\<close> s Inr Cons.prems(2) tag at
            have rec: "load_env_store nfc dir rc names ?st3 = (st', msgs, r)"
              by (simp add: new_object_def Let_def)
            have ok3: "refs_ok ?st3"
              using refs_dict_set [OF e, of key] refs_Suc [OF g] by (simp add: refs_ok_def)
            have t3: "tables_of (st_heap ?st3) (st_env_data ?st3)
                = dict_set (tables_of (st_heap st) (st_env_data st)) key ?t"
              using e by (simp add: tables_of_dict_set tables_of_append table_at_def)
            from Cons.IH [OF ok3 rec] t3 g2 found Some \<open>rc f = Inr df0\<close> s Inr
            show ?thesis by (simp add: load_env_loop.simps cong: option.case_cong)
          qed
        qed
      qed
    qed
  qed
qed

lemma loaded_store_eq:
  "loaded_store =
     \<lparr>st_heap = [Table (setitem env_table school_col (PyStr haneul)),
                 Table (setitem (sheet [Num 5, Num 7]) school_col (PyStr haneul))],
      st_env_data = [(PyStr haneul, 0)],
      st_growth_data = [(PyStr haneul, 1)]\<rparr>"
proof -
  have r1: "find_file_safe hangul_compose data_dir (songdo @ env_suffix) = Inr None"
    by (simp add: data_dir_def name_defs nfc_defs)
  have r2: "find_file_safe hangul_compose data_dir (haneul @ env_suffix) = Inr (Some (haneul @ env_suffix))"
    by (simp add: data_dir_def name_defs nfc_defs)
  have r3: "find_file_safe hangul_compose data_dir (ara @ env_suffix) = Inr None"
    by (simp add: data_dir_def name_defs nfc_defs)
  have r4: "find_file_safe hangul_compose data_dir (dongsan @ env_suffix) = Inr None"
    by (simp add: data_dir_def name_defs nfc_defs)
  have s: "split_first (haneul @ env_suffix) = haneul"
    by (simp add: split_first_def haneul_def env_suffix_def)
  have k: "iloc0 (map (\<lambda>r. PyStr haneul) (rws env_table)) = Inr (PyStr haneul)"
    by (simp add: env_table_def iloc0_def)
  have "fst (load_env_store hangul_compose data_dir (\<lambda>f. Inr env_table)
       [songdo @ env_suffix, haneul @ env_suffix, ara @ env_suffix, dongsan @ env_suffix]
       empty_store)
     = \<lparr>st_heap = [Table (setitem env_table school_col (PyStr haneul))],
        st_env_data = [(PyStr haneul, 0)], st_growth_data = []\<rparr>"
    using r1 r2 r3 r4 s k
    by (simp add: empty_store_def new_object_def table_setitem_def table_at_def Let_def
        getitem_setitem_same)
  then show ?thesis
    by (simp add: loaded_store_def csv_targets_def new_object_def table_setitem_def table_at_def
        Let_def)
qed

lemma loaders_refs_ok:
  "refs_ok (load_growth_store sheets
              (fst (load_env_store nfc dir rc names empty_store)))"
proof -
  obtain st' msgs r where l: "load_env_store nfc dir rc names empty_store = (st', msgs, r)"
    by (cases "load_env_store nfc dir rc names empty_store") auto
  have "refs_ok empty_store" by (simp add: refs_ok_def empty_store_def)
  from load_env_store_refines [OF this l] have "refs_ok st'" by simp
  from load_growth_store_refines [OF this, of sheets] l show ?thesis by simp
qed

text \<open>
  The statement is not empty: the one in-place statement of the script that is applied to
  a table, \<open>df[c] = v\<close>, breaks it when it is applied to a loaded table.
\<close>

lemma in_place_change_not_preserved:
  "\<not> preserved loaded_store (table_setitem loaded_store 0 ec_col (PyFloat (Num 0)))"
proof -
  have "setitem (setitem env_table school_col (PyStr haneul)) ec_col (PyFloat (Num 0))
      \<noteq> setitem env_table school_col (PyStr haneul)"
    by (simp add: setitem_def env_table_def col_defs)
  then show ?thesis
    by (simp add: preserved_def loaded_store_eq table_setitem_def table_at_def)
qed

text \<open>
  C9. In every store whose mappings hold addresses of allocated objects (as after the
  loaders), each aggregation block (the overview, the environment averages, the weight by
  source, and the two concatenations) leaves both mappings, every object allocated before
  it and the tables that the mappings denote as they were, also when it raises; the list
  to which it appends and the table it builds are at addresses that were not allocated
  before. The reads of pandas (\<open>len\<close>, \<open>df[c].mean()\<close>, \<open>pd.concat\<close>) are taken to read.
\<close>

theorem aggregation_blocks_preserve_raw_data:
  assumes "refs_ok st"
  shows "(\<forall>st' rows_at df_at tp. overview_block st = (st', rows_at, df_at, tp) \<longrightarrow>
            preserved st st' \<and> new_address st st' rows_at \<and> new_address st st' df_at)
    \<and> (\<forall>selected st' r. averages_block fmean st selected = (st', r) \<longrightarrow>
            preserved st st'
            \<and> (\<forall>rows_at df_at. r = Inr (rows_at, df_at) \<longrightarrow>
                  new_address st st' rows_at \<and> new_address st st' df_at))
    \<and> (\<forall>st' r. weight_block fmean st = (st', r) \<longrightarrow>
            preserved st st'
            \<and> (\<forall>rows_at df_at. r = Inr (rows_at, df_at) \<longrightarrow>
                  new_address st st' rows_at \<and> new_address st st' df_at))
    \<and> (\<forall>st' r. concat_env_block st = (st', r) \<longrightarrow>
            preserved st st' \<and> (\<forall>a. r = Inr a \<longrightarrow> new_address st st' a))
    \<and> (\<forall>st' r. concat_growth_block st = (st', r) \<longrightarrow>
            preserved st st' \<and> (\<forall>a. r = Inr a \<longrightarrow> new_address st st' a))"
proof (intro conjI allI impI)
  fix st' rows_at df_at tp
  assume a: "overview_block st = (st', rows_at, df_at, tp)"
  from overview_block_keeps [OF a] show "preserved st st'"
    using keeps_preserved [OF assms] by blast
  from overview_block_keeps [OF a] show "new_address st st' rows_at"
    by (simp add: new_address_def)
  from overview_block_keeps [OF a] show "new_address st st' df_at"
    by (simp add: new_address_def)
next
  fix selected st' r
  assume a: "averages_block fmean st selected = (st', r)"
  from averages_block_keeps [OF a] show "preserved st st'"
    using keeps_preserved [OF assms] by blast
  fix rows_at df_at
  assume "r = Inr (rows_at, df_at)"
  with averages_block_keeps [OF a] show "new_address st st' rows_at" "new_address st st' df_at"
    by (simp_all add: new_address_def)
next
  fix st' r
  assume a: "weight_block fmean st = (st', r)"
  from weight_block_keeps [OF a] show "preserved st st'"
    using keeps_preserved [OF assms] by blast
  fix rows_at df_at
  assume "r = Inr (rows_at, df_at)"
  with weight_block_keeps [OF a] show "new_address st st' rows_at" "new_address st st' df_at"
    by (simp_all add: new_address_def)
next
  fix st' r
  assume a: "concat_env_block st = (st', r)"
  from concat_env_block_keeps [OF a] show "preserved st st'"
    using keeps_preserved [OF assms] by blast
  fix a'
  assume "r = Inr a'"
  with concat_env_block_keeps [OF a] show "new_address st st' a'"
    by (simp add: new_address_def)
next
  fix st' r
  assume a: "concat_growth_block st = (st', r)"
  from concat_growth_block_keeps [OF a] show "preserved st st'"
    using keeps_preserved [OF assms] by blast
  fix a'
  assume "r = Inr a'"
  with concat_growth_block_keeps [OF a] show "new_address st st' a'"
    by (simp add: new_address_def)
qed

theorem aggregation_blocks_preserve_raw_data_witness:
  "refs_ok loaded_store
   \<and> snd (overview_block loaded_store) = (2, 3, 2)
   \<and> preserved loaded_store (fst (overview_block loaded_store))
   \<and> new_address loaded_store (fst (overview_block loaded_store)) 2
   \<and> new_address loaded_store (fst (overview_block loaded_store)) 3
   \<and> overview_rows_at (st_heap (fst (overview_block loaded_store))) 2
       = [\<lparr>ov_school = PyStr haneul, ov_ec = Some (Num 2), ov_count = 2,
           ov_color = Some (ascii ''#2ca02c'')\<rparr>]
   \<and> snd (averages_block exact_mean loaded_store [PyStr songdo]) = Inl KeyError
   \<and> preserved loaded_store (fst (averages_block exact_mean loaded_store [PyStr songdo]))"
proof -
  have ok: "refs_ok loaded_store" by (simp add: loaded_store_eq refs_ok_def)
  have ec: "dict_get EC_MAP (PyStr haneul) = Some (Num 2)"
    by (simp add: dict_get_def EC_MAP_def school_defs)
  have co: "dict_get COLOR_MAP (PyStr haneul) = Some (ascii ''#2ca02c'')"
    by (simp add: dict_get_def COLOR_MAP_def school_defs)
  have len: "len_df (setitem (sheet [Num 5, Num 7]) school_col (PyStr haneul)) = 2"
    by (simp add: len_df_def setitem_def sheet_def)
  have ob: "overview_block loaded_store =
      (fst (overview_block loaded_store), 2, 3, 2)
    \<and> overview_rows_at (st_heap (fst (overview_block loaded_store))) 2
       = [\<lparr>ov_school = PyStr haneul, ov_ec = Some (Num 2), ov_count = 2,
           ov_color = Some (ascii ''#2ca02c'')\<rparr>]"
    using ec co len
    by (simp add: overview_block_def loaded_store_eq new_object_def overview_append_def
        overview_rows_at_def table_at_def Let_def)
  have ab: "averages_block exact_mean loaded_store [PyStr songdo]
      = (fst (averages_block exact_mean loaded_store [PyStr songdo]), Inl KeyError)"
    by (simp add: averages_block_def loaded_store_eq new_object_def dict_index_def
        songdo_def haneul_def)
  show ?thesis
    using ok ob ab aggregation_blocks_preserve_raw_data [OF ok, of exact_mean]
    by (metis snd_conv)
qed

end
